theory Spec2Isabelle
  imports Complex_Main "HOL-Library.Stream" "HOL-Library.Word"
begin

unbundle bit_operations_syntax

section \<open>Numbers and vectors\<close>

text \<open>
  The renderer of \<^verbatim>\<open>src/main.cpp\<close> computes in C++ \<^verbatim>\<open>float\<close>. The embedding reads a
  \<^verbatim>\<open>float\<close> as a real number and every operation as the exact operation on reals:
  rounding, overflow and NaN are outside the model. The one infinite value the program
  uses, \<^verbatim>\<open>std::numeric_limits<float>::infinity()\<close> as the upper bound that
  \<^verbatim>\<open>World::hit\<close> passes to \<^verbatim>\<open>Ray::intersects\<close>, is kept by giving that parameter the
  type \<open>efloat\<close>. The quotient \<open>x / 0\<close> of HOL is \<open>0\<close>, not what IEEE division returns;
  the statements below that depend on the value of a quotient assume or prove that its
  divisor is not zero.
\<close>

type_synonym float = real

datatype efloat = Finite float | PosInf

text \<open>\<^verbatim>\<open>t >= maxT\<close> for a finite \<open>t\<close> and a bound that may be infinite.\<close>

fun ge_efloat :: "float \<Rightarrow> efloat \<Rightarrow> bool" where
  "ge_efloat t (Finite m) = (t \<ge> m)"
| "ge_efloat t PosInf = False"

text \<open>\<open>t\<close> lies strictly below the bound.\<close>

fun lt_efloat :: "float \<Rightarrow> efloat \<Rightarrow> bool" where
  "lt_efloat t (Finite m) = (t < m)"
| "lt_efloat t PosInf = True"

text \<open>The three constants of \<^verbatim>\<open>std::numeric_limits<float>\<close> the program reads.\<close>

definition FLT_MAX :: float where
  "FLT_MAX = (2 - 1 / 2 ^ 23) * 2 ^ 127"

definition FLT_MIN :: float where
  "FLT_MIN = 1 / 2 ^ 126"

definition FLT_EPSILON :: float where
  "FLT_EPSILON = 1 / 2 ^ 23"

text \<open>
  \<^verbatim>\<open>glm::vec3\<close>. Its operators \<open>+\<close>, \<open>-\<close> and \<open>*\<close> work componentwise; \<open>smul\<close> is
  \<^verbatim>\<open>float * vec3\<close> and \<open>vdiv\<close> is \<^verbatim>\<open>vec3 / float\<close>.
\<close>

datatype vec3 = Vec3 (vx: float) (vy: float) (vz: float)

instantiation vec3 :: "{plus, minus, times}"
begin

definition plus_vec3 :: "vec3 \<Rightarrow> vec3 \<Rightarrow> vec3" where
  "plus_vec3 a b = Vec3 (vx a + vx b) (vy a + vy b) (vz a + vz b)"

definition minus_vec3 :: "vec3 \<Rightarrow> vec3 \<Rightarrow> vec3" where
  "minus_vec3 a b = Vec3 (vx a - vx b) (vy a - vy b) (vz a - vz b)"

definition times_vec3 :: "vec3 \<Rightarrow> vec3 \<Rightarrow> vec3" where
  "times_vec3 a b = Vec3 (vx a * vx b) (vy a * vy b) (vz a * vz b)"

instance ..

end

definition smul :: "float \<Rightarrow> vec3 \<Rightarrow> vec3" where
  "smul k v = Vec3 (k * vx v) (k * vy v) (k * vz v)"

definition vdiv :: "vec3 \<Rightarrow> float \<Rightarrow> vec3" where
  "vdiv v k = Vec3 (vx v / k) (vy v / k) (vz v / k)"

text \<open>\<^verbatim>\<open>glm::dot\<close>.\<close>

definition dot :: "vec3 \<Rightarrow> vec3 \<Rightarrow> float" where
  "dot a b = vx a * vx b + vy a * vy b + vz a * vz b"

text \<open>\<^verbatim>\<open>glm::reflect(I, N)\<close>, which GLM defines as \<^verbatim>\<open>I - N * dot(N, I) * 2\<close>.\<close>

definition reflect :: "vec3 \<Rightarrow> vec3 \<Rightarrow> vec3" where
  "reflect i n = i - smul (dot n i * 2) n"

section \<open>Scene model\<close>

record material =
  albedo :: vec3
  roughness :: float
  metallic :: float

record sphere =
  center :: vec3
  radius :: float
  material :: material

record camera =
  position :: vec3

record ray =
  origin :: vec3
  direction :: vec3

section \<open>Ray and intersection\<close>

text \<open>\<^verbatim>\<open>Ray::at\<close> (the name \<open>at\<close> is taken by the filters of HOL).\<close>

definition ray_at :: "ray \<Rightarrow> float \<Rightarrow> vec3" where
  "ray_at r t = origin r + smul t (direction r)"

text \<open>
  \<^verbatim>\<open>Ray::intersects\<close>. The local \<open>d\<close> is first the discriminant and then its square
  root, as in the source; \<open>t\<close> is first the near root and, when that is rejected, the
  far root.
\<close>

definition intersects :: "ray \<Rightarrow> sphere \<Rightarrow> float \<Rightarrow> efloat \<Rightarrow> float" where
  "intersects r sph minT maxT =
     (let oc = center sph - origin r;
          a = dot (direction r) (direction r);
          h = dot (direction r) oc;
          c = dot oc oc - radius sph * radius sph;
          d = h * h - a * c
      in if d < 0 then - 1
         else
           let d = sqrt d;
               t = (h - d) / a
           in if t \<le> minT \<or> ge_efloat t maxT
              then
                let t = (h + d) / a
                in if t \<le> minT \<or> ge_efloat t maxT then - 1 else t
              else t)"

section \<open>Random sampling\<close>

text \<open>
  \<^verbatim>\<open>randomFloat()\<close> draws from one process-wide \<^verbatim>\<open>std::mt19937\<close> through a
  \<^verbatim>\<open>std::uniform_real_distribution<float>\<close>. Both are library code; the embedding
  takes the generator's state to be the stream of the values that the successive calls
  return, and every function that draws takes that state and returns the rest of it.
\<close>

type_synonym rng = "float stream"

definition randomFloat :: "rng \<Rightarrow> float \<times> rng" where
  "randomFloat g = (shd g, stl g)"

definition randomFloat_range :: "float \<Rightarrow> float \<Rightarrow> rng \<Rightarrow> float \<times> rng" where
  "randomFloat_range mn mx g =
     (let (u, g1) = randomFloat g in (mn + (mx - mn) * u, g1))"

text \<open>A braced initialiser list evaluates its elements from left to right.\<close>

definition randomVec2_range :: "float \<Rightarrow> float \<Rightarrow> rng \<Rightarrow> (float \<times> float) \<times> rng" where
  "randomVec2_range mn mx g =
     (let (x, g1) = randomFloat_range mn mx g;
          (y, g2) = randomFloat_range mn mx g1
      in ((x, y), g2))"

definition randomVec3_range :: "float \<Rightarrow> float \<Rightarrow> rng \<Rightarrow> vec3 \<times> rng" where
  "randomVec3_range mn mx g =
     (let (x, g1) = randomFloat_range mn mx g;
          (y, g2) = randomFloat_range mn mx g1;
          (z, g3) = randomFloat_range mn mx g2
      in (Vec3 x y z, g3))"

text \<open>
  \<^verbatim>\<open>randomUnitVec3OnSphere\<close>: the loop \<^verbatim>\<open>while (true)\<close> has no bound, so the function is
  partial; \<open>None\<close> is the run that never accepts a candidate.
\<close>

partial_function (option) randomUnitVec3OnSphere :: "rng \<Rightarrow> (vec3 \<times> rng) option" where
  "randomUnitVec3OnSphere g =
     (let (dir, g1) = randomVec3_range (- 1) 1 g;
          l = dot dir dir
      in if FLT_MIN < l \<and> l \<le> 1 then Some (vdiv dir (sqrt l), g1)
         else randomUnitVec3OnSphere g1)"

definition nearZero :: "vec3 \<Rightarrow> bool" where
  "nearZero v =
     (let e = FLT_EPSILON in \<bar>vx v\<bar> < e \<and> \<bar>vy v\<bar> < e \<and> \<bar>vz v\<bar> < e)"

text \<open>
  \<^verbatim>\<open>Ray::scatter\<close>. A \<^verbatim>\<open>float\<close> used as a condition is true when it is not zero. The
  metallic branch draws nothing; the other branch draws a unit vector first.
\<close>

definition scatter :: "ray \<Rightarrow> vec3 \<Rightarrow> vec3 \<Rightarrow> material \<Rightarrow> rng \<Rightarrow> (ray \<times> rng) option" where
  "scatter r p n mat g =
     (if metallic mat \<noteq> 0
      then Some (\<lparr>origin = p, direction = reflect (p - origin r) n\<rparr>, g)
      else
        case randomUnitVec3OnSphere g of
          None \<Rightarrow> None
        | Some (dir, g1) \<Rightarrow>
            let dir = (if nearZero (n + dir) then n else dir)
            in Some (\<lparr>origin = p, direction = n + dir\<rparr>, g1))"

section \<open>The world and the integrator\<close>

record world =
  camera :: camera
  spheres :: "sphere list"

text \<open>
  \<^verbatim>\<open>HitRecord\<close>: the pointer into the vector of spheres is the index of the sphere, and
  \<^verbatim>\<open>nullptr\<close> is \<open>None\<close>.
\<close>

record hit_record =
  hit_sphere :: "nat option"
  hit_t :: float

text \<open>
  The loop of \<^verbatim>\<open>World::hit\<close> over the spheres that are left, \<open>i\<close> being the index of the
  first of them.
\<close>

fun hit_loop :: "ray \<Rightarrow> sphere list \<Rightarrow> nat \<Rightarrow> float \<Rightarrow> nat option \<Rightarrow> hit_record" where
  "hit_loop r [] i closestT closestSphere =
     \<lparr>hit_sphere = closestSphere, hit_t = closestT\<rparr>"
| "hit_loop r (sph # rest) i closestT closestSphere =
     (let t = intersects r sph 0.001 PosInf
      in if t < 0 \<or> t > closestT then hit_loop r rest (i + 1) closestT closestSphere
         else hit_loop r rest (i + 1) t (Some i))"

definition hit :: "world \<Rightarrow> ray \<Rightarrow> hit_record" where
  "hit w r = hit_loop r (spheres w) 0 FLT_MAX None"

text \<open>
  \<^verbatim>\<open>World::color\<close>. The depth is a \<^verbatim>\<open>float\<close> in the source. The result is \<open>None\<close> when
  a scatter on the way never returns.
\<close>

function color :: "world \<Rightarrow> ray \<Rightarrow> float \<Rightarrow> rng \<Rightarrow> (vec3 \<times> rng) option" where
  "color w r depth g =
     (if depth \<le> 0 then Some (Vec3 0 0 0, g)
      else
        let record = hit w r in
        case hit_sphere record of
          None \<Rightarrow> Some (Vec3 0.5 0.8 0.9, g)
        | Some i \<Rightarrow>
            let sph = spheres w ! i;
                p = ray_at r (hit_t record);
                n = vdiv (p - center sph) (radius sph);
                mat = material sph
            in (case scatter r p n mat g of
                  None \<Rightarrow> None
                | Some (scattered, g1) \<Rightarrow>
                    (case color w scattered (depth - 1) g1 of
                       None \<Rightarrow> None
                     | Some (c, g2) \<Rightarrow> Some (smul 0.25 (albedo mat) * c, g2))))"
  by pat_completeness auto
termination
proof (relation "measure (\<lambda>(w, r, depth, g). nat \<lceil>depth\<rceil>)")
  show "wf (measure (\<lambda>(w, r, depth, g). nat \<lceil>depth\<rceil>))"
    by simp
next
  fix w :: world and r scattered :: ray and depth :: float and g g1 :: rng
  assume "\<not> depth \<le> 0"
  then have "nat \<lceil>depth - 1\<rceil> < nat \<lceil>depth\<rceil>"
    by linarith
  then show "((w, scattered, depth - 1, g1), w, r, depth, g)
      \<in> measure (\<lambda>(w, r, depth, g). nat \<lceil>depth\<rceil>)"
    by simp
qed

declare color.simps [simp del]

section \<open>The image sampling loop\<close>

text \<open>The globals of the program; \<^verbatim>\<open>glm::radians\<close> multiplies by \<open>pi / 180\<close>.\<close>

definition radians :: "float \<Rightarrow> float" where
  "radians deg = deg * (pi / 180)"

definition fov :: float where
  "fov = tan (radians (60 / 2))"

definition sampleCount :: float where
  "sampleCount = 150"

definition rayDepth :: float where
  "rayDepth = 50"

text \<open>
  The image dimensions \<^verbatim>\<open>w\<close> and \<^verbatim>\<open>h\<close>, the counters \<^verbatim>\<open>x\<close>, \<^verbatim>\<open>y\<close> and \<^verbatim>\<open>i\<close> and the
  index \<^verbatim>\<open>idx\<close> are \<^verbatim>\<open>uint32_t\<close>: words of 32 bits, whose sums and products wrap
  around. A \<^verbatim>\<open>uint32_t\<close> converted to \<^verbatim>\<open>float\<close> is the real number of its value.
\<close>

type_synonym uint32 = "32 word"

definition to_float :: "uint32 \<Rightarrow> float" where
  "to_float n = real (unat n)"

text \<open>
  \<^verbatim>\<open>pixelToWorld\<close> reads the globals \<^verbatim>\<open>w\<close>, \<^verbatim>\<open>h\<close> and \<^verbatim>\<open>aspectRatio\<close>; here they are
  parameters.
\<close>

definition pixelToWorld :: "uint32 \<Rightarrow> uint32 \<Rightarrow> float \<Rightarrow> float \<Rightarrow> float \<Rightarrow> float \<times> float" where
  "pixelToWorld w h aspectRatio x y =
     ((2 * ((x + 0.5) / to_float w) - 1) * aspectRatio * fov,
      (1 - 2 * ((y + 0.5) / to_float h)) * fov)"

text \<open>\<^verbatim>\<open>glm::normalize\<close>, \<^verbatim>\<open>glm::sqrt\<close> and \<^verbatim>\<open>glm::clamp\<close> on \<^verbatim>\<open>vec3\<close>.\<close>

definition normalize :: "vec3 \<Rightarrow> vec3" where
  "normalize v = smul (1 / sqrt (dot v v)) v"

definition vsqrt :: "vec3 \<Rightarrow> vec3" where
  "vsqrt v = Vec3 (sqrt (vx v)) (sqrt (vy v)) (sqrt (vz v))"

definition clamp :: "float \<Rightarrow> float \<Rightarrow> float \<Rightarrow> float" where
  "clamp x lo hi = min (max x lo) hi"

definition vclamp :: "vec3 \<Rightarrow> float \<Rightarrow> float \<Rightarrow> vec3" where
  "vclamp v lo hi = Vec3 (clamp (vx v) lo hi) (clamp (vy v) lo hi) (clamp (vz v) lo hi)"

text \<open>\<^verbatim>\<open>static_cast<uint32_t>\<close> of a \<^verbatim>\<open>float\<close> that is not negative drops the fraction.\<close>

definition to_uint32 :: "float \<Rightarrow> uint32" where
  "to_uint32 x = word_of_int \<lfloor>x\<rfloor>"

definition pack :: "vec3 \<Rightarrow> uint32" where
  "pack pixelColor =
     push_bit 24 (to_uint32 (vx pixelColor * 255))
     OR push_bit 16 (to_uint32 (vy pixelColor * 255))
     OR push_bit 8 (to_uint32 (vz pixelColor * 255))
     OR 0x000000FF"

text \<open>
  The loop over the samples of the pixel \<open>(x, y)\<close>, from sample \<open>i\<close> on. It returns
  the colour accumulated in \<^verbatim>\<open>pixelColor\<close>. The counter is compared with the
  \<^verbatim>\<open>float\<close> \<^verbatim>\<open>sampleCount\<close>, so it stays below \<open>150\<close> and its increment does not wrap.
\<close>

function sample_loop ::
  "world \<Rightarrow> uint32 \<Rightarrow> uint32 \<Rightarrow> uint32 \<Rightarrow> uint32 \<Rightarrow> uint32 \<Rightarrow> ray \<Rightarrow> vec3 \<Rightarrow> rng
     \<Rightarrow> (vec3 \<times> rng) option"
where
  "sample_loop wld w h x y i r pixelColor g =
     (if to_float i < sampleCount
      then
        let (offset, g1) = randomVec2_range (- 0.5) 0.5 g;
            pos = pixelToWorld w h (to_float w / to_float h)
                    (to_float x + fst offset) (to_float y + snd offset);
            r = r\<lparr>direction := normalize (Vec3 (fst pos) (snd pos) (- 1) - origin r)\<rparr>
        in case color wld r rayDepth g1 of
             None \<Rightarrow> None
           | Some (c, g2) \<Rightarrow> sample_loop wld w h x y (i + 1) r (pixelColor + c) g2
      else Some (pixelColor, g))"
  by pat_completeness auto
termination
proof (relation "measure (\<lambda>(wld, w, h, x, y, i, r, pixelColor, g). 150 - unat i)")
  show "wf (measure (\<lambda>(wld, w, h, x, y, i, r, pixelColor, g). 150 - unat i))"
    by simp
next
  fix wld :: world and w h x y i :: uint32 and r r' :: ray and pixelColor c :: vec3
    and g g2 :: rng
  assume "to_float i < sampleCount"
  then have "real (unat i) < 150"
    unfolding to_float_def sampleCount_def .
  then have i: "unat i < 150"
    by linarith
  then have "unat i + unat (1 :: uint32) < 2 ^ LENGTH(32)"
    by simp
  then have "unat (i + 1) = unat i + 1"
    by (simp add: unat_add_lem [THEN iffD1])
  with i show "((wld, w, h, x, y, i + 1, r', pixelColor + c, g2), wld, w, h, x, y, i, r, pixelColor, g)
      \<in> measure (\<lambda>(wld, w, h, x, y, i, r, pixelColor, g). 150 - unat i)"
    by simp
qed

declare sample_loop.simps [simp del]

text \<open>
  What ends a render without a buffer: a sample that never returns, or a write
  \<^verbatim>\<open>pixels[idx]\<close> outside the buffer, which is undefined behaviour in the source.
\<close>

datatype fault = NeverReturns | OutOfBounds

text \<open>The loop over the pixels of row \<open>y\<close>, from column \<open>x\<close> on.\<close>

function row_loop ::
  "world \<Rightarrow> uint32 \<Rightarrow> uint32 \<Rightarrow> uint32 \<Rightarrow> uint32 \<Rightarrow> uint32 list \<Rightarrow> rng
     \<Rightarrow> fault + (uint32 list \<times> rng)"
where
  "row_loop wld w h y x pixels g =
     (if x < w
      then
        let pixelColor = Vec3 0 0 0;
            idx = y * w + x;
            r = \<lparr>origin = position (camera wld), direction = Vec3 0 0 0\<rparr>
        in case sample_loop wld w h x y 0 r pixelColor g of
             None \<Rightarrow> Inl NeverReturns
           | Some (pixelColor, g1) \<Rightarrow>
               let pixelColor = vclamp (vsqrt (vdiv pixelColor sampleCount)) 0 1
               in if unat idx < length pixels
                  then row_loop wld w h y (x + 1) (pixels[unat idx := pack pixelColor]) g1
                  else Inl OutOfBounds
      else Inr (pixels, g))"
  by pat_completeness auto
termination
proof (relation "measure (\<lambda>(wld, w, h, y, x, pixels, g). unat w - unat x)")
  show "wf (measure (\<lambda>(wld, w, h, y, x, pixels, g). unat w - unat x))"
    by simp
next
  fix wld :: world and w h y x :: uint32 and pixels pixels' :: "uint32 list" and g g1 :: rng
  assume "x < w"
  then have less: "unat x < unat w"
    by (simp add: word_less_nat_alt)
  moreover have "unat w < 2 ^ LENGTH(32)"
    by (rule unsigned_less)
  ultimately have "unat x + unat (1 :: uint32) < 2 ^ LENGTH(32)"
    by simp
  then have "unat (x + 1) = unat x + 1"
    by (simp add: unat_add_lem [THEN iffD1])
  with less show "((wld, w, h, y, x + 1, pixels', g1), wld, w, h, y, x, pixels, g)
      \<in> measure (\<lambda>(wld, w, h, y, x, pixels, g). unat w - unat x)"
    by simp
qed

declare row_loop.simps [simp del]

text \<open>The loop over the rows, from row \<open>y\<close> on.\<close>

function image_loop ::
  "world \<Rightarrow> uint32 \<Rightarrow> uint32 \<Rightarrow> uint32 \<Rightarrow> uint32 list \<Rightarrow> rng
     \<Rightarrow> fault + (uint32 list \<times> rng)"
where
  "image_loop wld w h y pixels g =
     (if y < h
      then
        case row_loop wld w h y 0 pixels g of
          Inl f \<Rightarrow> Inl f
        | Inr (pixels, g1) \<Rightarrow> image_loop wld w h (y + 1) pixels g1
      else Inr (pixels, g))"
  by pat_completeness auto
termination
proof (relation "measure (\<lambda>(wld, w, h, y, pixels, g). unat h - unat y)")
  show "wf (measure (\<lambda>(wld, w, h, y, pixels, g). unat h - unat y))"
    by simp
next
  fix wld :: world and w h y :: uint32 and pixels pixels' :: "uint32 list" and g g1 :: rng
  assume "y < h"
  then have less: "unat y < unat h"
    by (simp add: word_less_nat_alt)
  moreover have "unat h < 2 ^ LENGTH(32)"
    by (rule unsigned_less)
  ultimately have "unat y + unat (1 :: uint32) < 2 ^ LENGTH(32)"
    by simp
  then have "unat (y + 1) = unat y + 1"
    by (simp add: unat_add_lem [THEN iffD1])
  with less show "((wld, w, h, y + 1, pixels', g1), wld, w, h, y, pixels, g)
      \<in> measure (\<lambda>(wld, w, h, y, pixels, g). unat h - unat y)"
    by simp
qed

declare image_loop.simps [simp del]

text \<open>
  The rendering part of \<^verbatim>\<open>main\<close>: the buffer \<^verbatim>\<open>pixels(w * h)\<close>, zero-initialised, whose
  size is the product in \<^verbatim>\<open>uint32_t\<close>, and the loops that fill it. The generator that
  \<^verbatim>\<open>randomFloat\<close> keeps in a function-local static is the state \<open>g\<close>, which the run
  starts with and threads through every sample. The result is the buffer handed to the
  display and the state the generator is left in, or the fault that ends the run.
\<close>

definition render :: "world \<Rightarrow> uint32 \<Rightarrow> uint32 \<Rightarrow> rng \<Rightarrow> fault + (uint32 list \<times> rng)" where
  "render wld w h g = image_loop wld w h 0 (replicate (unat (w * h)) 0) g"

section \<open>Notions used in the statements\<close>

text \<open>The coefficients of the quadratic, named as the source names them.\<close>

definition quad_a :: "ray \<Rightarrow> float" where
  "quad_a r = dot (direction r) (direction r)"

definition quad_h :: "ray \<Rightarrow> sphere \<Rightarrow> float" where
  "quad_h r sph = dot (direction r) (center sph - origin r)"

definition quad_c :: "ray \<Rightarrow> sphere \<Rightarrow> float" where
  "quad_c r sph =
     dot (center sph - origin r) (center sph - origin r) - radius sph * radius sph"

definition discriminant :: "ray \<Rightarrow> sphere \<Rightarrow> float" where
  "discriminant r sph = quad_h r sph * quad_h r sph - quad_a r * quad_c r sph"

definition near_root :: "ray \<Rightarrow> sphere \<Rightarrow> float" where
  "near_root r sph = (quad_h r sph - sqrt (discriminant r sph)) / quad_a r"

definition far_root :: "ray \<Rightarrow> sphere \<Rightarrow> float" where
  "far_root r sph = (quad_h r sph + sqrt (discriminant r sph)) / quad_a r"

text \<open>A value lies strictly inside the open interval \<open>(minT, maxT)\<close>.\<close>

definition strictly_inside :: "float \<Rightarrow> float \<Rightarrow> efloat \<Rightarrow> bool" where
  "strictly_inside t minT maxT = (minT < t \<and> lt_efloat t maxT)"

text \<open>What \<^verbatim>\<open>World::hit\<close> gets from \<^verbatim>\<open>intersects\<close> for one sphere.\<close>

definition sphere_t :: "ray \<Rightarrow> sphere \<Rightarrow> float" where
  "sphere_t r sph = intersects r sph 0.001 PosInf"

text \<open>Every component lies in \<open>[0, 1]\<close>; every component lies in \<open>[0, 0.9]\<close>.\<close>

definition unit_interval :: "vec3 \<Rightarrow> bool" where
  "unit_interval v =
     (0 \<le> vx v \<and> vx v \<le> 1 \<and> 0 \<le> vy v \<and> vy v \<le> 1 \<and> 0 \<le> vz v \<and> vz v \<le> 1)"

definition within_sky :: "vec3 \<Rightarrow> bool" where
  "within_sky v =
     (0 \<le> vx v \<and> vx v \<le> 0.9 \<and> 0 \<le> vy v \<and> vy v \<le> 0.9 \<and> 0 \<le> vz v \<and> vz v \<le> 0.9)"

text \<open>
  The bounce of the integrator as the specification words it: the constant \<open>0.25\<close> times the
  albedo times the colour that comes back, component by component.
\<close>

definition attenuate :: "vec3 \<Rightarrow> vec3 \<Rightarrow> vec3" where
  "attenuate a c = Vec3 (0.25 * vx a * vx c) (0.25 * vy a * vy c) (0.25 * vz a * vz c)"

text \<open>
  The pair \<open>y\<close> of a unit vector and a generator state comes from a candidate that the
  rejection loop, started in state \<open>g\<close>, accepts: the candidate is the \<open>k\<close>-th triple of
  draws, its squared length lies in \<open>(FLT_MIN, 1]\<close>, and \<open>y\<close> holds the candidate
  divided by its length and the state after the triple.
\<close>

definition accepted_from :: "rng \<Rightarrow> vec3 \<times> rng \<Rightarrow> bool" where
  "accepted_from g y =
     (\<exists>k dir. randomVec3_range (- 1) 1 (sdrop (3 * k) g) = (dir, snd y)
        \<and> FLT_MIN < dot dir dir \<and> dot dir dir \<le> 1
        \<and> fst y = vdiv dir (sqrt (dot dir dir)))"

text \<open>
  The pixel of the sky colour, \<open>180, 228, 241\<close> with the alpha \<open>255\<close>, and a buffer
  whose first \<open>n\<close> pixels hold it.
\<close>

definition sky_pixel :: "32 word" where
  "sky_pixel = 0xB4E4F1FF"

definition filled :: "nat \<Rightarrow> 32 word list \<Rightarrow> bool" where
  "filled n pixels = (\<forall>i<n. pixels ! i = sky_pixel)"

text \<open>
  The word that the row loop stores for a pixel whose samples add up to \<open>pixelColor\<close>.
\<close>

definition pixel_of :: "vec3 \<Rightarrow> uint32" where
  "pixel_of pixelColor = pack (vclamp (vsqrt (vdiv pixelColor sampleCount)) 0 1)"

text \<open>
  The outcome of a run, read as the outcome of a computation that may have none: the
  buffer and the generator state of a run that finishes, and nothing for a run that
  ends in a fault.
\<close>

fun finished :: "fault + 'a \<Rightarrow> 'a option" where
  "finished (Inl f) = None"
| "finished (Inr a) = Some a"

text \<open>
  A computation \<open>m\<close> that reads the generator can be replayed from the state \<open>g\<close>: if it
  returns from \<open>g\<close>, it has drawn some number \<open>n\<close> of values and left the generator \<open>n\<close>
  draws further, and from every state that yields the same \<open>n\<close> values first it returns
  the same result, again \<open>n\<close> draws further. The values a generator yields after the
  \<open>n\<close>-th, and whatever else tells two generators apart, have no part in the result.
\<close>

definition replays :: "(rng \<Rightarrow> ('a \<times> rng) option) \<Rightarrow> rng \<Rightarrow> bool" where
  "replays m g =
     (\<forall>a rest. m g = Some (a, rest) \<longrightarrow>
        (\<exists>n. rest = sdrop n g
           \<and> (\<forall>g'. stake n g' = stake n g \<longrightarrow> m g' = Some (a, sdrop n g'))))"

text \<open>The same for the result \<open>y\<close> of the rejection loop started in state \<open>g\<close>.\<close>

definition replay_of :: "rng \<Rightarrow> vec3 \<times> rng \<Rightarrow> bool" where
  "replay_of g y =
     (\<exists>n. snd y = sdrop n g
        \<and> (\<forall>g'. stake n g' = stake n g
              \<longrightarrow> randomUnitVec3OnSphere g' = Some (fst y, sdrop n g')))"

text \<open>
  The next three values of the generator make a candidate that the rejection loop
  accepts. A generator is fair when, from every position of its stream on, one of the
  triples read in steps of three is such a candidate.
\<close>

definition accepts :: "rng \<Rightarrow> bool" where
  "accepts g =
     (let dir = fst (randomVec3_range (- 1) 1 g)
      in FLT_MIN < dot dir dir \<and> dot dir dir \<le> 1)"

definition fair :: "rng \<Rightarrow> bool" where
  "fair g = (\<forall>m. \<exists>k. accepts (sdrop (m + 3 * k) g))"

section \<open>A small scene for concrete runs\<close>

definition ex_matte :: material where
  "ex_matte = \<lparr>albedo = Vec3 0.5 0.5 0.5, roughness = 1, metallic = 0\<rparr>"

definition ex_mirror :: material where
  "ex_mirror = \<lparr>albedo = Vec3 1 1 1, roughness = 1, metallic = 1\<rparr>"

definition ex_sphere :: "material \<Rightarrow> sphere" where
  "ex_sphere m = \<lparr>center = Vec3 0 0 (- 2), radius = 1, material = m\<rparr>"

definition ex_camera :: camera where
  "ex_camera = \<lparr>position = Vec3 0 0 0\<rparr>"

text \<open>One mirror sphere; two spheres in the same place; no sphere.\<close>

definition mirror_world :: world where
  "mirror_world = \<lparr>camera = ex_camera, spheres = [ex_sphere ex_mirror]\<rparr>"

definition tie_world :: world where
  "tie_world = \<lparr>camera = ex_camera, spheres = [ex_sphere ex_matte, ex_sphere ex_mirror]\<rparr>"

definition empty_world :: world where
  "empty_world = \<lparr>camera = ex_camera, spheres = []\<rparr>"

text \<open>A ray from the camera towards the spheres, and one away from them.\<close>

definition ex_ray :: ray where
  "ex_ray = \<lparr>origin = Vec3 0 0 0, direction = Vec3 0 0 (- 1)\<rparr>"

definition away_ray :: ray where
  "away_ray = \<lparr>origin = Vec3 0 0 0, direction = Vec3 0 0 1\<rparr>"

text \<open>The mirror reflection of \<open>ex_ray\<close> at the sphere.\<close>

definition bounced_ray :: ray where
  "bounced_ray = \<lparr>origin = Vec3 0 0 (- 1), direction = Vec3 0 0 1\<rparr>"

text \<open>
  A generator whose first three values give the candidate \<open>(0, 0, -1)\<close>, and one that
  returns \<open>1 / 2\<close> for ever.
\<close>

definition ex_rng :: rng where
  "ex_rng = 0.5 ## 0.5 ## 0 ## sconst 0"

definition half_rng :: rng where
  "half_rng = sconst 0.5"

text \<open>
  A generator that returns \<open>3 / 4\<close> for ever: each of its candidates is
  \<open>(0.5, 0.5, 0.5)\<close>, of squared length \<open>3 / 4\<close>.
\<close>

definition steady_rng :: rng where
  "steady_rng = sconst 0.75"

section \<open>Properties of the intersection test\<close>

lemma ge_efloat_iff: "ge_efloat t m = (\<not> lt_efloat t m)"
  by (cases m) auto

lemma rejected_iff: "(t \<le> minT \<or> ge_efloat t maxT) = (\<not> strictly_inside t minT maxT)"
  by (auto simp: strictly_inside_def ge_efloat_iff)

text \<open>
  Claim C1. For a ray whose direction is not the zero vector (so that the divisor
  \<open>a = dot direction direction\<close> is not zero), \<open>intersects\<close> returns the sentinel \<open>-1\<close>
  when the discriminant \<open>h * h - a * c\<close> is negative; otherwise the near root
  \<open>(h - sqrt d) / a\<close> when that lies strictly inside \<open>(minT, maxT)\<close>, else the far root
  \<open>(h + sqrt d) / a\<close> when that lies strictly inside, else the sentinel. A root equal to
  \<open>minT\<close> or to \<open>maxT\<close> is not strictly inside, so it is rejected.
\<close>

theorem intersects_spec:
  assumes "quad_a r \<noteq> 0"
  shows "intersects r sph minT maxT =
           (if discriminant r sph < 0 then - 1
            else if strictly_inside (near_root r sph) minT maxT then near_root r sph
            else if strictly_inside (far_root r sph) minT maxT then far_root r sph
            else - 1)
         \<and> \<not> strictly_inside minT minT maxT
         \<and> \<not> strictly_inside m minT (Finite m)"
  by (simp add: intersects_def Let_def rejected_iff near_root_def far_root_def
      discriminant_def quad_a_def quad_h_def quad_c_def strictly_inside_def)

lemmas vec_simps = dot_def minus_vec3_def plus_vec3_def times_vec3_def smul_def vdiv_def

lemma ex_coeffs:
  "quad_a ex_ray = 1" "quad_h ex_ray (ex_sphere m) = 2" "quad_c ex_ray (ex_sphere m) = 3"
  "discriminant ex_ray (ex_sphere m) = 1"
  by (simp_all add: discriminant_def quad_a_def quad_h_def quad_c_def ex_ray_def
      ex_sphere_def vec_simps)

text \<open>
  The ray from the origin along \<open>-z\<close> meets the unit sphere centred at \<open>(0, 0, -2)\<close>
  at \<open>t = 1\<close> and at \<open>t = 3\<close>. With the bounds \<open>(0.001, +infinity)\<close> the near root is
  returned; with \<open>minT = 1\<close> the near root is on the bound and the far root is
  returned; with \<open>maxT = 1\<close> both roots are rejected.
\<close>

theorem intersects_spec_witness:
  "quad_a ex_ray \<noteq> 0
   \<and> \<not> discriminant ex_ray (ex_sphere ex_matte) < 0
   \<and> near_root ex_ray (ex_sphere ex_matte) = 1
   \<and> far_root ex_ray (ex_sphere ex_matte) = 3
   \<and> strictly_inside 1 0.001 PosInf
   \<and> intersects ex_ray (ex_sphere ex_matte) 0.001 PosInf = 1
   \<and> intersects ex_ray (ex_sphere ex_matte) 1 PosInf = 3
   \<and> intersects ex_ray (ex_sphere ex_matte) 0.001 (Finite 1) = - 1"
  using intersects_spec [of ex_ray "ex_sphere ex_matte" "0.001" PosInf 0]
    intersects_spec [of ex_ray "ex_sphere ex_matte" 1 PosInf 0]
    intersects_spec [of ex_ray "ex_sphere ex_matte" "0.001" "Finite 1" 0]
  by (simp add: ex_coeffs near_root_def far_root_def strictly_inside_def)

lemma sphere_t_ex: "sphere_t ex_ray (ex_sphere m) = 1"
  by (simp add: sphere_t_def intersects_def ex_ray_def ex_sphere_def vec_simps Let_def)

lemma sphere_t_away: "sphere_t away_ray (ex_sphere m) = - 1"
  by (simp add: sphere_t_def intersects_def away_ray_def ex_sphere_def vec_simps Let_def)

lemma FLT_MAX_ge_1: "1 \<le> FLT_MAX"
  by (simp add: FLT_MAX_def)

section \<open>The closest hit\<close>

lemma hit_loop_Cons:
  "hit_loop r (s # rest) i cT cS =
     (if sphere_t r s < 0 \<or> sphere_t r s > cT then hit_loop r rest (Suc i) cT cS
      else hit_loop r rest (Suc i) (sphere_t r s) (Some i))"
  by (simp add: sphere_t_def Let_def)

text \<open>
  What the loop returns, started at index \<open>i\<close> with the closest distance \<open>cT\<close> so far:
  unless no sphere that is left has a distance in \<open>[0, cT]\<close>, it is the last of the
  spheres with the least such distance.
\<close>

lemma hit_loop_char:
  "(if \<exists>j<length ss. 0 \<le> sphere_t r (ss ! j) \<and> sphere_t r (ss ! j) \<le> cT
    then \<exists>k<length ss.
           hit_loop r ss i cT cS = \<lparr>hit_sphere = Some (i + k), hit_t = sphere_t r (ss ! k)\<rparr>
         \<and> 0 \<le> sphere_t r (ss ! k) \<and> sphere_t r (ss ! k) \<le> cT
         \<and> (\<forall>j<length ss. 0 \<le> sphere_t r (ss ! j) \<longrightarrow> sphere_t r (ss ! k) \<le> sphere_t r (ss ! j))
         \<and> (\<forall>j<length ss. k < j \<and> 0 \<le> sphere_t r (ss ! j) \<longrightarrow> sphere_t r (ss ! k) < sphere_t r (ss ! j))
    else hit_loop r ss i cT cS = \<lparr>hit_sphere = cS, hit_t = cT\<rparr>)"
proof (induction ss arbitrary: i cT cS)
  case Nil
  then show ?case by simp
next
  case (Cons s rest)
  show ?case
  proof (cases "sphere_t r s < 0 \<or> sphere_t r s > cT")
    case True
    show ?thesis using Cons.IH[where i="Suc i" and cT=cT and cS=cS] True
      apply (simp only: hit_loop_Cons if_True)
      apply (simp add: All_less_Suc2 Ex_less_Suc2 split: if_splits)
      apply (auto simp: All_less_Suc2 Ex_less_Suc2)
      done
  next
    case False
    let ?t = "sphere_t r s"
    from False have t: "0 \<le> ?t" "?t \<le> cT" by auto
    have step: "hit_loop r (s # rest) i cT cS = hit_loop r rest (Suc i) ?t (Some i)"
      using False by (simp only: hit_loop_Cons if_False)
    have ex: "\<exists>j<length (s # rest). 0 \<le> sphere_t r ((s # rest) ! j) \<and> sphere_t r ((s # rest) ! j) \<le> cT"
      using t by (intro exI[of _ 0]) simp
    show ?thesis
    proof (cases "\<exists>j<length rest. 0 \<le> sphere_t r (rest ! j) \<and> sphere_t r (rest ! j) \<le> ?t")
      case True
      with Cons.IH[where i="Suc i" and cT="?t" and cS="Some i"]
      obtain k where k: "k < length rest"
        "hit_loop r rest (Suc i) ?t (Some i) = \<lparr>hit_sphere = Some (Suc i + k), hit_t = sphere_t r (rest ! k)\<rparr>"
        "0 \<le> sphere_t r (rest ! k)" "sphere_t r (rest ! k) \<le> ?t"
        "\<forall>j<length rest. 0 \<le> sphere_t r (rest ! j) \<longrightarrow> sphere_t r (rest ! k) \<le> sphere_t r (rest ! j)"
        "\<forall>j<length rest. k < j \<and> 0 \<le> sphere_t r (rest ! j) \<longrightarrow> sphere_t r (rest ! k) < sphere_t r (rest ! j)"
        by auto
      have "Suc k < length (s # rest)
          \<and> hit_loop r (s # rest) i cT cS = \<lparr>hit_sphere = Some (i + Suc k), hit_t = sphere_t r ((s # rest) ! Suc k)\<rparr>
          \<and> 0 \<le> sphere_t r ((s # rest) ! Suc k) \<and> sphere_t r ((s # rest) ! Suc k) \<le> cT
          \<and> (\<forall>j<length (s # rest). 0 \<le> sphere_t r ((s # rest) ! j) \<longrightarrow> sphere_t r ((s # rest) ! Suc k) \<le> sphere_t r ((s # rest) ! j))
          \<and> (\<forall>j<length (s # rest). Suc k < j \<and> 0 \<le> sphere_t r ((s # rest) ! j) \<longrightarrow> sphere_t r ((s # rest) ! Suc k) < sphere_t r ((s # rest) ! j))"
        using k t step by (auto simp: All_less_Suc2)
      then show ?thesis using ex by (simp only: if_True) blast
    next
      case False
      with Cons.IH[where i="Suc i" and cT="?t" and cS="Some i"]
      have res: "hit_loop r rest (Suc i) ?t (Some i) = \<lparr>hit_sphere = Some i, hit_t = ?t\<rparr>"
        by simp
      from False have later: "\<forall>j<length rest. 0 \<le> sphere_t r (rest ! j) \<longrightarrow> ?t < sphere_t r (rest ! j)"
        by (auto simp: not_le)
      have "0 < length (s # rest)
          \<and> hit_loop r (s # rest) i cT cS = \<lparr>hit_sphere = Some (i + 0), hit_t = sphere_t r ((s # rest) ! 0)\<rparr>
          \<and> 0 \<le> sphere_t r ((s # rest) ! 0) \<and> sphere_t r ((s # rest) ! 0) \<le> cT
          \<and> (\<forall>j<length (s # rest). 0 \<le> sphere_t r ((s # rest) ! j) \<longrightarrow> sphere_t r ((s # rest) ! 0) \<le> sphere_t r ((s # rest) ! j))
          \<and> (\<forall>j<length (s # rest). 0 < j \<and> 0 \<le> sphere_t r ((s # rest) ! j) \<longrightarrow> sphere_t r ((s # rest) ! 0) < sphere_t r ((s # rest) ! j))"
        using res t step later by (auto simp: All_less_Suc2 less_imp_le)
      then show ?thesis using ex by (simp only: if_True) blast
    qed
  qed
qed

lemma hit_index_valid: "hit_sphere (hit w r) = Some i \<Longrightarrow> i < length (spheres w)"
  using hit_loop_char [of "spheres w" r FLT_MAX 0 None]
  by (auto simp: hit_def split: if_splits)

lemma hit_none:
  assumes "\<forall>s\<in>set (spheres w). intersects r s 0.001 PosInf < 0"
  shows "hit w r = \<lparr>hit_sphere = None, hit_t = FLT_MAX\<rparr>"
proof -
  have "\<not> (\<exists>j<length (spheres w). 0 \<le> sphere_t r (spheres w ! j) \<and> sphere_t r (spheres w ! j) \<le> FLT_MAX)"
    using assms by (auto simp: sphere_t_def not_le)
  then show ?thesis
    using hit_loop_char[of "spheres w" r FLT_MAX 0 None] by (simp add: hit_def)
qed

text \<open>
  Claim C3, amended. The closest-hit query returns the LAST sphere in iteration order
  that achieves the minimal intersection distance: a sphere \<open>k\<close> is returned only if
  its distance is not negative, no sphere with a distance that is not negative is
  nearer, and every such sphere after \<open>k\<close> is strictly farther; so when two spheres
  yield the same minimal distance the later one wins. No sphere is returned, with the
  distance \<^verbatim>\<open>FLT_MAX\<close>, exactly when every sphere's distance is negative or beyond
  \<^verbatim>\<open>FLT_MAX\<close>.
\<close>

theorem hit_last_closest:
  "(case hit_sphere (hit w r) of
      None \<Rightarrow> hit_t (hit w r) = FLT_MAX
        \<and> (\<forall>j<length (spheres w).
              sphere_t r (spheres w ! j) < 0 \<or> FLT_MAX < sphere_t r (spheres w ! j))
    | Some k \<Rightarrow> k < length (spheres w)
        \<and> hit_t (hit w r) = sphere_t r (spheres w ! k)
        \<and> 0 \<le> sphere_t r (spheres w ! k)
        \<and> (\<forall>j<length (spheres w). 0 \<le> sphere_t r (spheres w ! j)
              \<longrightarrow> sphere_t r (spheres w ! k) \<le> sphere_t r (spheres w ! j))
        \<and> (\<forall>j<length (spheres w). k < j \<and> 0 \<le> sphere_t r (spheres w ! j)
              \<longrightarrow> sphere_t r (spheres w ! k) < sphere_t r (spheres w ! j)))"
  using hit_loop_char [of "spheres w" r FLT_MAX 0 None]
  by (auto simp: hit_def not_le split: if_splits)

lemma hit_tie: "hit tie_world ex_ray = \<lparr>hit_sphere = Some 1, hit_t = 1\<rparr>"
  using FLT_MAX_ge_1
  by (simp add: hit_def tie_world_def hit_loop_Cons sphere_t_ex del: hit_loop.simps(2))

text \<open>
  In \<open>tie_world\<close> both spheres are met at \<open>t = 1\<close>, and the query returns the second.
\<close>

theorem hit_last_closest_witness:
  "hit_sphere (hit tie_world ex_ray) = Some 1
   \<and> 1 < length (spheres tie_world)
   \<and> hit_t (hit tie_world ex_ray) = sphere_t ex_ray (spheres tie_world ! 1)
   \<and> sphere_t ex_ray (spheres tie_world ! 0) = sphere_t ex_ray (spheres tie_world ! 1)"
  using hit_last_closest [of tie_world ex_ray]
  by (simp add: hit_tie) (simp add: tie_world_def sphere_t_ex)

text \<open>
  Claim C3 as stated fails: two spheres yield exactly the same minimal distance and
  the earlier one, at index \<open>0\<close>, is not the one returned.
\<close>

theorem hit_tie_counterexample:
  "sphere_t ex_ray (spheres tie_world ! 0) = 1
   \<and> sphere_t ex_ray (spheres tie_world ! 1) = 1
   \<and> hit_sphere (hit tie_world ex_ray) \<noteq> Some 0
   \<and> hit_sphere (hit tie_world ex_ray) = Some 1"
  by (simp add: hit_tie) (simp add: tie_world_def sphere_t_ex)

section \<open>Random unit vectors\<close>

lemma randomVec3_range_stream:
  "randomVec3_range mn mx g =
     (Vec3 (mn + (mx - mn) * shd g) (mn + (mx - mn) * shd (stl g))
        (mn + (mx - mn) * shd (stl (stl g))), sdrop 3 g)"
  by (simp add: randomVec3_range_def randomFloat_range_def randomFloat_def numeral_3_eq_3)

lemma sdrop_step: "sdrop (3 * k) (sdrop 3 g) = sdrop (3 * Suc k) g"
proof -
  have "3 * Suc k = 3 + 3 * k" by simp
  then show ?thesis by (simp only: sdrop_add)
qed

lemma FLT_MIN_pos: "0 < FLT_MIN"
  by (simp add: FLT_MIN_def)

lemma dot_vdiv: "dot (vdiv d s) (vdiv d s) = dot d d / (s * s)"
  by (simp add: vec_simps add_divide_distrib)

lemma dot_vdiv_sqrt:
  assumes "0 < dot d d"
  shows "dot (vdiv d (sqrt (dot d d))) (vdiv d (sqrt (dot d d))) = 1"
  using assms by (simp add: dot_vdiv)

lemma dot_zero: "dot (Vec3 0 0 0) (Vec3 0 0 0) = 0"
  by (simp add: dot_def)

lemma unit_vector_accepted_aux:
  assumes "randomUnitVec3OnSphere g = Some y"
  shows "accepted_from g y"
proof (rule randomUnitVec3OnSphere.raw_induct [where P = accepted_from, OF _ assms])
  fix sample :: "rng \<Rightarrow> (vec3 \<times> rng) option" and g :: rng and y :: "vec3 \<times> rng"
  assume IH: "\<And>x y. sample x = Some y \<Longrightarrow> accepted_from x y"
    and eq: "(let (dir, g1) = randomVec3_range (- 1) 1 g; l = dot dir dir
              in if FLT_MIN < l \<and> l \<le> 1 then Some (vdiv dir (sqrt l), g1)
                 else sample g1) = Some y"
  obtain dir g1 where cand: "randomVec3_range (- 1) 1 g = (dir, g1)"
    by (cases "randomVec3_range (- 1) 1 g")
  then have g1: "g1 = sdrop 3 g" by (simp add: randomVec3_range_stream)
  show "accepted_from g y"
  proof (cases "FLT_MIN < dot dir dir \<and> dot dir dir \<le> 1")
    case True
    with eq cand have "y = (vdiv dir (sqrt (dot dir dir)), g1)"
      by (simp add: Let_def)
    with cand True show ?thesis
      unfolding accepted_from_def
      by - (rule exI [of _ 0], rule exI [of _ dir], simp)
  next
    case False
    with eq cand have "sample g1 = Some y"
      by (simp add: Let_def)
    from IH [OF this] obtain k dir' where
      k: "randomVec3_range (- 1) 1 (sdrop (3 * k) g1) = (dir', snd y)"
        "FLT_MIN < dot dir' dir'" "dot dir' dir' \<le> 1"
        "fst y = vdiv dir' (sqrt (dot dir' dir'))"
      unfolding accepted_from_def by blast
    have "sdrop (3 * k) g1 = sdrop (3 * Suc k) g"
      unfolding g1 by (rule sdrop_step)
    with k show ?thesis
      unfolding accepted_from_def
      by - (rule exI [of _ "Suc k"], rule exI [of _ dir'], simp)
  qed
qed

text \<open>
  Claim C8. Whenever the rejection loop of \<open>randomUnitVec3OnSphere\<close> returns, it has
  accepted a candidate \<open>dir\<close> whose squared length \<open>l = dot dir dir\<close> satisfies
  \<open>FLT_MIN < l \<le> 1\<close>, the bound \<open>FLT_MIN\<close> being positive; so the divisor \<open>sqrt l\<close> of
  the normalisation is not zero, the returned vector is \<open>dir\<close> divided by \<open>sqrt l\<close>,
  its length \<open>sqrt (dot v v)\<close> is \<open>1\<close>, and it is not the zero vector.
\<close>

theorem unit_vector_accepted:
  assumes "randomUnitVec3OnSphere g = Some (v, g')"
  shows "\<exists>k dir. randomVec3_range (- 1) 1 (sdrop (3 * k) g) = (dir, g')
           \<and> 0 < FLT_MIN \<and> FLT_MIN < dot dir dir \<and> dot dir dir \<le> 1
           \<and> sqrt (dot dir dir) \<noteq> 0
           \<and> v = vdiv dir (sqrt (dot dir dir))
           \<and> sqrt (dot v v) = 1 \<and> v \<noteq> Vec3 0 0 0"
proof -
  from unit_vector_accepted_aux [OF assms] obtain k dir where
    k: "randomVec3_range (- 1) 1 (sdrop (3 * k) g) = (dir, g')"
      "FLT_MIN < dot dir dir" "dot dir dir \<le> 1" "v = vdiv dir (sqrt (dot dir dir))"
    unfolding accepted_from_def by auto
  from k(2) FLT_MIN_pos have pos: "0 < dot dir dir" by linarith
  then have one: "dot v v = 1" unfolding k(4) by (rule dot_vdiv_sqrt)
  then have nz: "v \<noteq> Vec3 0 0 0" using dot_zero by auto
  from pos have "sqrt (dot dir dir) \<noteq> 0" by simp
  with k one nz FLT_MIN_pos show ?thesis
    by - (rule exI [of _ k], rule exI [of _ dir], simp)
qed

lemma unit_vector_ex: "randomUnitVec3OnSphere ex_rng = Some (Vec3 0 0 (- 1), sconst 0)"
  by (subst randomUnitVec3OnSphere.simps)
    (simp add: randomVec3_range_stream ex_rng_def FLT_MIN_def vec_simps numeral_3_eq_3)

text \<open>
  With the draws \<open>0.5, 0.5, 0\<close> the first candidate is \<open>(0, 0, -1)\<close>, which is accepted.
\<close>

theorem unit_vector_accepted_witness:
  "randomUnitVec3OnSphere ex_rng = Some (Vec3 0 0 (- 1), sconst 0)
   \<and> sqrt (dot (Vec3 0 0 (- 1)) (Vec3 0 0 (- 1))) = 1
   \<and> Vec3 0 0 (- 1) \<noteq> Vec3 0 0 0"
  using unit_vector_accepted [OF unit_vector_ex] unit_vector_ex by (auto simp: dot_def)

text \<open>Where a candidate is accepted, the loop returns.\<close>

lemma unit_vector_returns:
  assumes "randomVec3_range (- 1) 1 (sdrop (3 * k) g) = (dir, g')"
    and "FLT_MIN < dot dir dir" and "dot dir dir \<le> 1"
  shows "\<exists>y. randomUnitVec3OnSphere g = Some y"
  using assms
proof (induction k arbitrary: g)
  case 0
  then show ?case
    by (subst randomUnitVec3OnSphere.simps) simp
next
  case (Suc k)
  obtain d0 g1 where cand: "randomVec3_range (- 1) 1 g = (d0, g1)"
    by (cases "randomVec3_range (- 1) 1 g")
  then have g1: "g1 = sdrop 3 g" by (simp add: randomVec3_range_stream)
  have "sdrop (3 * k) g1 = sdrop (3 * Suc k) g"
    unfolding g1 by (rule sdrop_step)
  with Suc.prems have "randomVec3_range (- 1) 1 (sdrop (3 * k) g1) = (dir, g')"
    by simp
  from Suc.IH [OF this Suc.prems(2,3)] obtain y where "randomUnitVec3OnSphere g1 = Some y" ..
  with cand show ?case
    by (subst randomUnitVec3OnSphere.simps) (simp add: Let_def)
qed

section \<open>Scattering\<close>

lemma reflect_smul: "reflect (smul t d) n = smul t (reflect d n)"
  by (simp add: reflect_def vec_simps algebra_simps)

lemma at_minus_origin: "ray_at r t - origin r = smul t (direction r)"
  by (simp add: ray_at_def vec_simps)

text \<open>
  Claim C7. For a metallic material the scattered ray starts at \<open>p\<close>, its direction is
  \<open>reflect (p - origin) n\<close>, and no random number is drawn; when \<open>p\<close> is the point
  \<open>ray_at r t\<close> of the incoming ray for a positive \<open>t\<close>, that direction is \<open>t\<close> times
  the mirror reflection \<open>reflect (direction r) n\<close> of the incoming direction about \<open>n\<close>.
\<close>

theorem scatter_metallic:
  assumes "metallic mat \<noteq> 0" and "p = ray_at r t" and "0 < t"
  shows "scatter r p n mat g = Some (\<lparr>origin = p, direction = reflect (p - origin r) n\<rparr>, g)
         \<and> reflect (p - origin r) n = smul t (reflect (direction r) n)"
  using assms by (simp add: scatter_def at_minus_origin reflect_smul)

theorem scatter_metallic_witness:
  "metallic ex_mirror \<noteq> 0 \<and> Vec3 0 0 (- 1) = ray_at ex_ray 1 \<and> (0 :: float) < 1
   \<and> scatter ex_ray (Vec3 0 0 (- 1)) (Vec3 0 0 1) ex_mirror half_rng
       = Some (\<lparr>origin = Vec3 0 0 (- 1), direction = Vec3 0 0 1\<rparr>, half_rng)
   \<and> smul 1 (reflect (direction ex_ray) (Vec3 0 0 1)) = Vec3 0 0 1"
  using scatter_metallic [of ex_mirror "Vec3 0 0 (- 1)" ex_ray 1 "Vec3 0 0 1" half_rng]
  by (simp add: ex_mirror_def ex_ray_def ray_at_def reflect_def vec_simps)

text \<open>A vector that is near zero is shorter than a unit vector.\<close>

lemma unit_vector_unit:
  assumes "randomUnitVec3OnSphere g = Some (v, g')"
  shows "dot v v = 1"
proof -
  from unit_vector_accepted_aux [OF assms] obtain dir where
    "FLT_MIN < dot dir dir" and v: "v = vdiv dir (sqrt (dot dir dir))"
    unfolding accepted_from_def by auto
  with FLT_MIN_pos have "0 < dot dir dir" by linarith
  then show ?thesis unfolding v by (rule dot_vdiv_sqrt)
qed

lemma square_less_eps:
  fixes x :: real
  assumes "\<bar>x\<bar> < FLT_EPSILON"
  shows "x * x < 1 / 4"
proof -
  have "\<bar>x\<bar> < 1 / 2" using assms by (simp add: FLT_EPSILON_def)
  then have "\<bar>x\<bar> * \<bar>x\<bar> < (1 / 2) * (1 / 2)"
    by (intro mult_strict_mono') auto
  then show ?thesis by (simp add: abs_mult_self_eq)
qed

lemma nearZero_not_unit:
  assumes "nearZero v"
  shows "dot v v < 1"
  using assms square_less_eps [of "vx v"] square_less_eps [of "vy v"] square_less_eps [of "vz v"]
  by (simp add: nearZero_def dot_def Let_def)

lemma zero_plus: "Vec3 0 0 0 + v = v"
  by (cases v) (simp add: plus_vec3_def)

lemma double_nonzero: "n \<noteq> Vec3 0 0 0 \<Longrightarrow> n + n \<noteq> Vec3 0 0 0"
  by (cases n) (simp add: plus_vec3_def)

text \<open>
  Claim C2, amended. For a material that is not metallic, when the sum of the normal
  \<open>n\<close> and the drawn unit vector is near zero, the scattered ray starts at \<open>p\<close> and its
  direction is \<open>n + n\<close>, the normal added to itself: the fallback stores \<open>n\<close> in \<open>dir\<close>
  and the ray is still built from \<open>n + dir\<close>. That direction is not the zero vector,
  since a normal that nearly cancels a unit vector is not zero.
\<close>

theorem scatter_degenerate:
  assumes "metallic mat = 0" and "randomUnitVec3OnSphere g = Some (dir, g1)"
    and "nearZero (n + dir)"
  shows "scatter r p n mat g = Some (\<lparr>origin = p, direction = n + n\<rparr>, g1)
         \<and> n + n \<noteq> Vec3 0 0 0"
proof -
  have "n \<noteq> Vec3 0 0 0"
  proof
    assume "n = Vec3 0 0 0"
    with assms(3) have "nearZero dir" by (simp add: zero_plus)
    then have "dot dir dir < 1" by (rule nearZero_not_unit)
    with unit_vector_unit [OF assms(2)] show False by simp
  qed
  then have "n + n \<noteq> Vec3 0 0 0" by (rule double_nonzero)
  with assms show ?thesis by (simp add: scatter_def)
qed

lemma nearZero_ex: "nearZero (Vec3 0 0 1 + Vec3 0 0 (- 1))"
  by (simp add: nearZero_def FLT_EPSILON_def plus_vec3_def)

theorem scatter_degenerate_witness:
  "metallic ex_matte = 0
   \<and> randomUnitVec3OnSphere ex_rng = Some (Vec3 0 0 (- 1), sconst 0)
   \<and> nearZero (Vec3 0 0 1 + Vec3 0 0 (- 1))
   \<and> scatter ex_ray (Vec3 0 0 (- 1)) (Vec3 0 0 1) ex_matte ex_rng
       = Some (\<lparr>origin = Vec3 0 0 (- 1), direction = Vec3 0 0 1 + Vec3 0 0 1\<rparr>, sconst 0)
   \<and> Vec3 0 0 1 + Vec3 0 0 1 \<noteq> Vec3 0 0 0"
proof -
  have m: "metallic ex_matte = 0" by (simp add: ex_matte_def)
  show ?thesis
    using m unit_vector_ex nearZero_ex
      scatter_degenerate [OF m unit_vector_ex nearZero_ex, of ex_ray "Vec3 0 0 (- 1)"]
    by simp
qed

text \<open>
  Claim C2 as stated fails: at the hit of \<open>ex_ray\<close> on the sphere, with normal
  \<open>(0, 0, 1)\<close>, the drawn vector \<open>(0, 0, -1)\<close> cancels the normal, and the direction
  returned is \<open>(0, 0, 2)\<close>, not the normal.
\<close>

theorem scatter_degenerate_counterexample:
  "metallic ex_matte = 0
   \<and> randomUnitVec3OnSphere ex_rng = Some (Vec3 0 0 (- 1), sconst 0)
   \<and> nearZero (Vec3 0 0 1 + Vec3 0 0 (- 1))
   \<and> scatter ex_ray (Vec3 0 0 (- 1)) (Vec3 0 0 1) ex_matte ex_rng
       = Some (\<lparr>origin = Vec3 0 0 (- 1), direction = Vec3 0 0 2\<rparr>, sconst 0)
   \<and> Vec3 0 0 2 \<noteq> Vec3 0 0 1"
  using unit_vector_ex nearZero_ex
  by (simp add: scatter_def ex_matte_def plus_vec3_def)

section \<open>The integrator\<close>

text \<open>
  Claim C5. Called with a depth that is zero or negative, the integrator returns
  black \<open>(0, 0, 0)\<close> whatever the world and the ray are, and leaves the generator as it
  was: it neither queries an intersection nor recurses nor draws.
\<close>

theorem color_depth_exhausted:
  "depth \<le> 0 \<Longrightarrow> color w r depth g = Some (Vec3 0 0 0, g)"
  by (simp add: color.simps)

theorem color_depth_exhausted_witness:
  "(0 :: float) \<le> 0 \<and> color tie_world ex_ray 0 half_rng = Some (Vec3 0 0 0, half_rng)"
  using color_depth_exhausted [of 0 tie_world ex_ray half_rng] by simp

text \<open>
  Claim C6. At a depth greater than zero, a ray for which \<open>intersects\<close> with the bounds
  \<open>(0.001, +infinity)\<close> returns its negative sentinel on every sphere gets exactly the
  sky colour \<open>(0.5, 0.8, 0.9)\<close>, and the generator is not touched.
\<close>

theorem color_sky:
  assumes "0 < depth" and "\<forall>s\<in>set (spheres w). intersects r s 0.001 PosInf < 0"
  shows "color w r depth g = Some (Vec3 0.5 0.8 0.9, g)"
  using assms(1) hit_none [OF assms(2)] by (simp add: color.simps)

theorem color_sky_witness:
  "(0 :: float) < 50
   \<and> spheres mirror_world = [ex_sphere ex_mirror]
   \<and> intersects away_ray (ex_sphere ex_mirror) 0.001 PosInf < 0
   \<and> color mirror_world away_ray 50 half_rng = Some (Vec3 0.5 0.8 0.9, half_rng)"
proof -
  have miss: "\<forall>s\<in>set (spheres mirror_world). intersects away_ray s 0.001 PosInf < 0"
    using sphere_t_away [of ex_mirror] by (simp add: mirror_world_def sphere_t_def)
  show ?thesis
    using miss color_sky [of 50 mirror_world away_ray half_rng]
    by (simp add: mirror_world_def)
qed

lemma hit_mirror: "hit mirror_world ex_ray = \<lparr>hit_sphere = Some 0, hit_t = 1\<rparr>"
  using FLT_MAX_ge_1
  by (simp add: hit_def mirror_world_def hit_loop_Cons sphere_t_ex del: hit_loop.simps(2))

lemma scatter_mirror:
  "scatter ex_ray (Vec3 0 0 (- 1)) (Vec3 0 0 1) ex_mirror g = Some (bounced_ray, g)"
  by (simp add: scatter_def ex_mirror_def ex_ray_def bounced_ray_def reflect_def vec_simps)

lemma sphere_t_bounced: "sphere_t bounced_ray (ex_sphere m) = - 1"
  by (simp add: sphere_t_def intersects_def bounced_ray_def ex_sphere_def vec_simps Let_def)

lemma color_bounced_ray:
  "color mirror_world bounced_ray 1 g = Some (Vec3 0.5 0.8 0.9, g)"
proof -
  have "\<forall>s\<in>set (spheres mirror_world). intersects bounced_ray s 0.001 PosInf < 0"
    using sphere_t_bounced [of ex_mirror] by (simp add: mirror_world_def sphere_t_def)
  from hit_none [OF this] show ?thesis by (simp add: color.simps)
qed

lemma mirror_geometry:
  "ray_at ex_ray 1 = Vec3 0 0 (- 1)"
  "vdiv (Vec3 0 0 (- 1) - center (ex_sphere m)) (radius (ex_sphere m)) = Vec3 0 0 1"
  by (simp_all add: ray_at_def ex_ray_def ex_sphere_def vec_simps)

lemma spheres_mirror: "spheres mirror_world = [ex_sphere ex_mirror]"
  by (simp add: mirror_world_def)

lemma material_ex: "material (ex_sphere m) = m" "albedo ex_mirror = Vec3 1 1 1"
  by (simp_all add: ex_sphere_def ex_mirror_def)

lemma color_mirror: "color mirror_world ex_ray 2 g = Some (Vec3 0.125 0.2 0.225, g)"
  by (subst color.simps)
    (simp add: hit_mirror spheres_mirror mirror_geometry Let_def scatter_mirror
      color_bounced_ray material_ex smul_def times_vec3_def)

text \<open>
  Claim C4. At a depth greater than zero, for a ray whose closest hit is the sphere
  \<open>i\<close>, the integrator scatters at the hit point and recurses at \<open>depth - 1\<close>, and its
  result is the recursive colour \<open>c\<close> turned into \<open>attenuate albedo c\<close>, that is
  \<open>0.25 * albedo * c\<close> in every component, whatever the material is; it has no result
  exactly when the scatter or the recursive call has none.
\<close>

theorem color_bounce:
  assumes "0 < depth" and "hit_sphere (hit w r) = Some i"
    and "sph = spheres w ! i"
    and "p = ray_at r (hit_t (hit w r))"
    and "n = vdiv (p - center sph) (radius sph)"
  shows "color w r depth g =
           (case scatter r p n (material sph) g of
              None \<Rightarrow> None
            | Some (scattered, g1) \<Rightarrow>
                (case color w scattered (depth - 1) g1 of
                   None \<Rightarrow> None
                 | Some (c, g2) \<Rightarrow> Some (attenuate (albedo (material sph)) c, g2)))"
  using assms
  by (subst color.simps)
    (auto simp: Let_def attenuate_def smul_def times_vec3_def split: option.splits)

theorem color_bounce_witness:
  "(0 :: float) < 2
   \<and> hit_sphere (hit mirror_world ex_ray) = Some 0
   \<and> ex_sphere ex_mirror = spheres mirror_world ! 0
   \<and> Vec3 0 0 (- 1) = ray_at ex_ray (hit_t (hit mirror_world ex_ray))
   \<and> Vec3 0 0 1 = vdiv (Vec3 0 0 (- 1) - center (ex_sphere ex_mirror)) (radius (ex_sphere ex_mirror))
   \<and> scatter ex_ray (Vec3 0 0 (- 1)) (Vec3 0 0 1) (material (ex_sphere ex_mirror)) half_rng
       = Some (bounced_ray, half_rng)
   \<and> color mirror_world bounced_ray (2 - 1) half_rng = Some (Vec3 0.5 0.8 0.9, half_rng)
   \<and> color mirror_world ex_ray 2 half_rng
       = Some (attenuate (albedo (material (ex_sphere ex_mirror))) (Vec3 0.5 0.8 0.9), half_rng)"
proof -
  have a: "hit_sphere (hit mirror_world ex_ray) = Some 0" by (simp add: hit_mirror)
  have b: "ex_sphere ex_mirror = spheres mirror_world ! 0" by (simp add: mirror_world_def)
  have c: "Vec3 0 0 (- 1) = ray_at ex_ray (hit_t (hit mirror_world ex_ray))"
    by (simp add: hit_mirror mirror_geometry)
  have d: "Vec3 0 0 1 = vdiv (Vec3 0 0 (- 1) - center (ex_sphere ex_mirror)) (radius (ex_sphere ex_mirror))"
    by (simp add: mirror_geometry)
  have e: "scatter ex_ray (Vec3 0 0 (- 1)) (Vec3 0 0 1) (material (ex_sphere ex_mirror)) half_rng
       = Some (bounced_ray, half_rng)"
    by (simp add: scatter_mirror ex_sphere_def)
  have f: "color mirror_world bounced_ray (2 - 1) half_rng = Some (Vec3 0.5 0.8 0.9, half_rng)"
    by (simp add: color_bounced_ray)
  have "(0 :: float) < 2" by simp
  from color_bounce [OF this a b c d, of half_rng] a b c d e f show ?thesis
    by simp
qed

lemma bounce_bound:
  fixes a c :: real
  assumes "0 \<le> a" "a \<le> 1" "0 \<le> c" "c \<le> 0.9"
  shows "0 \<le> 0.25 * a * c \<and> 0.25 * a * c \<le> 0.9"
proof -
  have "a * c \<le> 1 * 0.9" using assms by (intro mult_mono) auto
  moreover have "0 \<le> a * c" using assms by simp
  ultimately show ?thesis by simp
qed

lemma within_sky_bounce:
  assumes "unit_interval a" "within_sky c"
  shows "within_sky (smul 0.25 a * c)"
  using assms bounce_bound[of "vx a" "vx c"] bounce_bound[of "vy a" "vy c"] bounce_bound[of "vz a" "vz c"]
  by (simp add: unit_interval_def within_sky_def smul_def times_vec3_def)

text \<open>
  Claim C10. If the albedo of every sphere has its components in \<open>[0, 1]\<close>, then for
  every ray, depth and generator state every component of a colour the integrator
  returns lies in \<open>[0, 0.9]\<close>.
\<close>

theorem color_bounded:
  assumes "\<forall>s\<in>set (spheres w). unit_interval (albedo (material s))"
    and "color w r depth g = Some (c, g')"
  shows "within_sky c"
  using assms
proof (induction w r depth g arbitrary: c g' rule: color.induct)
  case (1 w r depth g)
  note alb = "1.prems"(1) and run = "1.prems"(2)
  show ?case
  proof (cases "depth \<le> 0")
    case True
    with run show ?thesis by (auto simp: color.simps within_sky_def)
  next
    case pos: False
    show ?thesis
    proof (cases "hit_sphere (hit w r)")
      case None
      with pos run show ?thesis by (auto simp: color.simps within_sky_def)
    next
      case (Some i)
      let ?sph = "spheres w ! i"
      let ?p = "ray_at r (hit_t (hit w r))"
      let ?n = "vdiv (?p - center ?sph) (radius ?sph)"
      from run pos Some obtain scattered g1 c1 where
        sc: "scatter r ?p ?n (material ?sph) g = Some (scattered, g1)" and
        rec: "color w scattered (depth - 1) g1 = Some (c1, g')" and
        c: "c = smul 0.25 (albedo (material ?sph)) * c1"
        by (subst (asm) color.simps) (auto simp: Let_def split: option.splits)
      have "within_sky c1"
        using "1.IH"[OF pos refl Some refl refl refl refl sc refl alb rec] .
      moreover have "?sph \<in> set (spheres w)"
        using hit_index_valid[OF Some] by (rule nth_mem)
      then have "unit_interval (albedo (material ?sph))"
        using alb by (rule_tac bspec)
      ultimately show ?thesis unfolding c by (rule within_sky_bounce[rotated])
    qed
  qed
qed

theorem color_bounded_witness:
  "spheres mirror_world = [ex_sphere ex_mirror]
   \<and> unit_interval (albedo (material (ex_sphere ex_mirror)))
   \<and> color mirror_world ex_ray 2 half_rng = Some (Vec3 0.125 0.2 0.225, half_rng)
   \<and> within_sky (Vec3 0.125 0.2 0.225)"
proof -
  have u: "\<forall>s\<in>set (spheres mirror_world). unit_interval (albedo (material s))"
    by (simp add: mirror_world_def ex_sphere_def ex_mirror_def unit_interval_def)
  from color_bounded [OF u color_mirror [of half_rng]] u color_mirror [of half_rng]
  show ?thesis by (simp add: mirror_world_def)
qed

section \<open>Rendering\<close>

text \<open>
  The channel of a pixel is the integer part of \<open>255\<close> times a square root; it is \<open>n\<close>
  when the square root lies between \<open>n / 255\<close> and \<open>(n + 1) / 255\<close>.
\<close>

lemma floor_sqrt_scaled:
  fixes x :: real and n :: int
  assumes "0 \<le> x" and "0 \<le> n" and "(real_of_int n)\<^sup>2 \<le> 255\<^sup>2 * x"
    and "255\<^sup>2 * x < (real_of_int n + 1)\<^sup>2"
  shows "\<lfloor>sqrt x * 255\<rfloor> = n"
proof -
  have eq: "sqrt x * 255 = sqrt (255\<^sup>2 * x)"
    by (simp add: real_sqrt_mult)
  have lo: "real_of_int n \<le> sqrt (255\<^sup>2 * x)"
    using assms(3) by (rule real_le_rsqrt)
  have hi: "sqrt (255\<^sup>2 * x) < real_of_int n + 1"
    using assms(2,4) by (intro real_less_lsqrt) auto
  show ?thesis unfolding eq using lo hi by (simp add: floor_eq_iff)
qed

lemma sky_channels:
  "\<lfloor>sqrt (1 / 2 :: real) * 255\<rfloor> = 180"
  "\<lfloor>sqrt (4 / 5 :: real) * 255\<rfloor> = 228"
  "\<lfloor>sqrt (9 / 10 :: real) * 255\<rfloor> = 241"
  by (rule floor_sqrt_scaled; simp)+

text \<open>The jitter of a sample is made of the next two values of the generator.\<close>

lemma randomVec2_range_stream:
  "randomVec2_range mn mx g =
     ((mn + (mx - mn) * shd g, mn + (mx - mn) * shd (stl g)), stl (stl g))"
  by (simp add: randomVec2_range_def randomFloat_range_def randomFloat_def)

lemma sdrop_sconst: "sdrop n (sconst x) = sconst x"
  by (induction n) simp_all

text \<open>
  The counters \<^verbatim>\<open>x\<close> and \<^verbatim>\<open>y\<close> stay below \<^verbatim>\<open>w\<close> and \<^verbatim>\<open>h\<close>, and \<^verbatim>\<open>i\<close> below \<open>150\<close>, so their
  increments do not wrap.
\<close>

lemma counter_step:
  fixes x w :: uint32
  assumes "x < w"
  shows "unat (x + 1) = Suc (unat x)"
proof -
  from assms have "unat x < unat w" by (simp add: word_less_nat_alt)
  moreover have "unat w < 2 ^ LENGTH(32)" by (rule unsigned_less)
  ultimately have "unat x + unat (1 :: uint32) < 2 ^ LENGTH(32)" by simp
  then show ?thesis by (simp add: unat_add_lem [THEN iffD1])
qed

lemma sample_counter_step:
  fixes i :: uint32
  assumes "unat i < 150"
  shows "unat (i + 1) = Suc (unat i)"
proof -
  from assms have "unat i + unat (1 :: uint32) < 2 ^ LENGTH(32)" by simp
  then show ?thesis by (simp add: unat_add_lem [THEN iffD1])
qed

text \<open>One turn of the row loop, with the stored word named.\<close>

lemma finished_Some: "finished x = Some a \<longleftrightarrow> x = Inr a"
  by (cases x) simp_all

lemma row_loop_step:
  "row_loop wld w h y x pixels g =
     (if x < w
      then case sample_loop wld w h x y 0
               \<lparr>origin = position (camera wld), direction = Vec3 0 0 0\<rparr> (Vec3 0 0 0) g of
             None \<Rightarrow> Inl NeverReturns
           | Some (pixelColor, g1) \<Rightarrow>
               if unat (y * w + x) < length pixels
               then row_loop wld w h y (x + 1) (pixels[unat (y * w + x) := pixel_of pixelColor]) g1
               else Inl OutOfBounds
      else Inr (pixels, g))"
  by (subst row_loop.simps) (simp add: Let_def pixel_of_def split: option.splits)

subsection \<open>A world without spheres\<close>

text \<open>
  In a world without spheres every sample is the sky colour, and each sample draws the
  two numbers of its jitter; so every pixel is the pixel of the sky colour and costs
  \<open>300\<close> draws.
\<close>

lemma hit_no_spheres:
  "spheres wld = [] \<Longrightarrow> hit wld r = \<lparr>hit_sphere = None, hit_t = FLT_MAX\<rparr>"
  by (simp add: hit_def)

lemma color_no_spheres:
  "spheres wld = [] \<Longrightarrow> color wld r rayDepth g = Some (Vec3 0.5 0.8 0.9, g)"
  by (subst color.simps) (simp add: hit_no_spheres rayDepth_def)

lemma sample_loop_no_spheres:
  "spheres wld = [] \<Longrightarrow> n + unat i = 150 \<Longrightarrow>
   sample_loop wld w h x y i r acc g =
     Some (acc + smul (real n) (Vec3 0.5 0.8 0.9), sdrop (2 * n) g)"
proof (induction n arbitrary: i r acc g)
  case 0
  then have "\<not> to_float i < sampleCount"
    by (simp add: to_float_def sampleCount_def)
  then show ?case
    by (subst sample_loop.simps) (simp add: vec_simps)
next
  case (Suc n)
  then have less: "unat i < 150" by simp
  then have i: "to_float i < sampleCount"
    unfolding to_float_def sampleCount_def by linarith
  from Suc.prems(2) sample_counter_step [OF less] have n: "n + unat (i + 1) = 150"
    by simp
  have IH: "sample_loop wld w h x y (i + 1) r' acc' g' =
      Some (acc' + smul (real n) (Vec3 0.5 0.8 0.9), sdrop (2 * n) g')" for r' acc' g'
    using Suc.prems(1) n by (rule Suc.IH)
  then have IH': "sample_loop wld w h x y (1 + i) r' acc' g' =
      Some (acc' + smul (real n) (Vec3 0.5 0.8 0.9), sdrop (2 * n) g')" for r' acc' g'
    by (simp only: add.commute [of 1 i])
  show ?case
    by (subst sample_loop.simps)
      (simp add: i randomVec2_range_stream Let_def color_no_spheres [OF Suc.prems(1)] IH'
        vec_simps algebra_simps)
qed

lemma pixel_of_sky:
  "pixel_of (Vec3 0 0 0 + smul (real (150 :: nat)) (Vec3 0.5 0.8 0.9)) = sky_pixel"
  by (simp add: pixel_of_def vclamp_def vsqrt_def clamp_def sampleCount_def vec_simps
      pack_def to_uint32_def sky_channels sky_pixel_def)

lemma pixel_no_spheres:
  assumes "spheres wld = []"
  shows "row_loop wld w h y x pixels g =
    (if x < w
     then if unat (y * w + x) < length pixels
          then row_loop wld w h y (x + 1) (pixels[unat (y * w + x) := sky_pixel]) (sdrop 300 g)
          else Inl OutOfBounds
     else Inr (pixels, g))"
proof -
  have "unat (0 :: uint32) = 0" by simp
  then have "sample_loop wld w h x y 0 r acc g =
      Some (acc + smul (real (150 :: nat)) (Vec3 0.5 0.8 0.9), sdrop (2 * 150) g)" for r acc
    by (intro sample_loop_no_spheres [OF assms]) simp
  then show ?thesis
    by (subst row_loop_step) (simp only: pixel_of_sky option.case prod.case, simp)
qed

text \<open>
  Where the product \<open>w * h\<close> does not wrap, the index of the pixel \<open>(x, y)\<close> is
  \<open>y * w + x\<close> without wrapping, and it lies inside the buffer.
\<close>

lemma idx_no_wrap:
  fixes w h x y :: uint32
  assumes "unat w * unat h < 2 ^ 32" and "x < w" and "y < h"
  shows "unat (y * w + x) = unat y * unat w + unat x"
    and "unat y * unat w + unat x < unat w * unat h"
proof -
  from assms(2,3) have x: "unat x < unat w" and y: "unat y < unat h"
    by (simp_all add: word_less_nat_alt)
  from y have "Suc (unat y) * unat w \<le> unat h * unat w"
    by (intro mult_le_mono1) simp
  with x show less: "unat y * unat w + unat x < unat w * unat h"
    by (simp add: mult.commute)
  with assms(1) have small: "unat y * unat w + unat x < 2 ^ 32" by simp
  then have "unat y * unat w < 2 ^ 32" by simp
  then have "unat (y * w) = unat y * unat w"
    by (simp add: unat_mult_lem [THEN iffD1])
  moreover from this small have "unat (y * w) + unat x < 2 ^ LENGTH(32)" by simp
  then have "unat (y * w + x) = unat (y * w) + unat x"
    by (simp add: unat_add_lem [THEN iffD1])
  ultimately show "unat (y * w + x) = unat y * unat w + unat x" by simp
qed

lemma filled_update:
  assumes "filled n pixels" and "n < length pixels"
  shows "filled (Suc n) (pixels[n := sky_pixel])"
  using assms by (auto simp: filled_def less_Suc_eq nth_list_update)

lemma row_loop_no_spheres:
  assumes "spheres wld = []" and "unat w * unat h < 2 ^ 32" and "y < h"
  shows "d + unat x = unat w \<Longrightarrow> filled (unat y * unat w + unat x) pixels \<Longrightarrow>
    length pixels = unat w * unat h \<Longrightarrow>
    \<exists>pixels'. row_loop wld w h y x pixels g = Inr (pixels', sdrop (300 * d) g)
      \<and> length pixels' = length pixels \<and> filled (unat y * unat w + unat w) pixels'"
proof (induction d arbitrary: x pixels g)
  case 0
  then have "\<not> x < w" by (simp add: word_less_nat_alt)
  with 0 show ?case by (subst pixel_no_spheres [OF assms(1)]) simp
next
  case (Suc d)
  then have "unat x < unat w" by simp
  then have x: "x < w" by (simp add: word_less_nat_alt)
  note step = counter_step [OF x]
  from Suc.prems(1) step have d: "d + unat (x + 1) = unat w" by simp
  note idx = idx_no_wrap [OF assms(2) x assms(3)]
  let ?px = "pixels[unat (y * w + x) := sky_pixel]"
  have inside: "unat (y * w + x) < length pixels"
    using idx Suc.prems(3) by simp
  have "filled (Suc (unat y * unat w + unat x)) (pixels[unat y * unat w + unat x := sky_pixel])"
    using Suc.prems(2) inside idx(1) by (intro filled_update) simp_all
  then have f: "filled (unat y * unat w + unat (x + 1)) ?px"
    by (simp add: idx(1) step)
  have len: "length ?px = unat w * unat h" using Suc.prems(3) by simp
  from Suc.IH [OF d f len, of "sdrop 300 g"] obtain pixels' where
    "row_loop wld w h y (x + 1) ?px (sdrop 300 g) = Inr (pixels', sdrop (300 * d) (sdrop 300 g))"
    "length pixels' = length pixels" "filled (unat y * unat w + unat w) pixels'"
    by auto
  moreover have "sdrop (300 * d) (sdrop 300 g) = sdrop (300 * Suc d) g"
    by (simp add: add.commute)
  ultimately show ?case
    using x inside by (subst pixel_no_spheres [OF assms(1)]) simp
qed

lemma image_loop_no_spheres:
  assumes "spheres wld = []" and "unat w * unat h < 2 ^ 32"
  shows "d + unat y = unat h \<Longrightarrow> filled (unat y * unat w) pixels \<Longrightarrow>
    length pixels = unat w * unat h \<Longrightarrow>
    \<exists>pixels'. image_loop wld w h y pixels g = Inr (pixels', sdrop (300 * (unat w * d)) g)
      \<and> length pixels' = length pixels \<and> filled (unat w * unat h) pixels'"
proof (induction d arbitrary: y pixels g)
  case 0
  then have "\<not> y < h" by (simp add: word_less_nat_alt)
  with 0 show ?case
    by (subst image_loop.simps) (simp add: mult.commute)
next
  case (Suc d)
  then have "unat y < unat h" by simp
  then have y: "y < h" by (simp add: word_less_nat_alt)
  note step = counter_step [OF y]
  from Suc.prems(1) step have d: "d + unat (y + 1) = unat h" by simp
  have "unat (0 :: uint32) = 0" by simp
  with Suc.prems(2) have "filled (unat y * unat w + unat (0 :: uint32)) pixels" by simp
  from row_loop_no_spheres [OF assms y _ this Suc.prems(3), of "unat w" g]
  obtain px where row: "row_loop wld w h y 0 pixels g = Inr (px, sdrop (300 * unat w) g)"
    and len: "length px = length pixels" and f: "filled (unat y * unat w + unat w) px"
    by auto
  have "unat (y + 1) * unat w = unat y * unat w + unat w"
    unfolding step by simp
  with f have f': "filled (unat (y + 1) * unat w) px" by (simp only:)
  from len Suc.prems(3) have len': "length px = unat w * unat h" by simp
  from Suc.IH [OF d f' len', of "sdrop (300 * unat w) g"] obtain pixels' where
    "image_loop wld w h (y + 1) px (sdrop (300 * unat w) g)
       = Inr (pixels', sdrop (300 * (unat w * d)) (sdrop (300 * unat w) g))"
    "length pixels' = length px" "filled (unat w * unat h) pixels'"
    by auto
  moreover have "sdrop (300 * (unat w * d)) (sdrop (300 * unat w) g)
      = sdrop (300 * (unat w * Suc d)) g"
    by (simp add: algebra_simps)
  ultimately show ?case
    using y row len by (subst image_loop.simps) simp
qed

lemma render_no_spheres_run:
  assumes "spheres wld = []" and "unat w * unat h < 2 ^ 32"
  shows "render wld w h g =
    Inr (replicate (unat w * unat h) 0xB4E4F1FF, sdrop (300 * (unat w * unat h)) g)"
proof -
  from assms(2) have size: "unat (w * h) = unat w * unat h"
    by (simp add: unat_mult_lem [THEN iffD1])
  have "unat (0 :: uint32) = 0" by simp
  then have start: "unat h + unat (0 :: uint32) = unat h"
    and f: "filled (unat (0 :: uint32) * unat w) (replicate (unat w * unat h) 0)"
    by (simp_all add: filled_def)
  from image_loop_no_spheres [OF assms start f, of g] obtain pixels' where
    r: "image_loop wld w h 0 (replicate (unat w * unat h) 0) g
        = Inr (pixels', sdrop (300 * (unat w * unat h)) g)"
    and len: "length pixels' = unat w * unat h" and f: "filled (unat w * unat h) pixels'"
    by auto
  from len f have "pixels' = replicate (unat w * unat h) sky_pixel"
    by (auto simp: filled_def list_eq_iff_nth_eq)
  with r show ?thesis by (simp add: render_def size sky_pixel_def)
qed

lemma render_two_pixels:
  "render empty_world 2 1 half_rng = Inr ([0xB4E4F1FF, 0xB4E4F1FF], half_rng)"
proof -
  have size: "unat (2 :: uint32) * unat (1 :: uint32) = 2" by simp
  have small: "unat (2 :: uint32) * unat (1 :: uint32) < 2 ^ 32" by simp
  have "spheres empty_world = []" by (simp add: empty_world_def)
  from render_no_spheres_run [OF this small, of half_rng]
  have "render empty_world 2 1 half_rng =
      Inr (replicate 2 0xB4E4F1FF, sdrop (300 * 2) half_rng)"
    unfolding size .
  moreover have "replicate 2 (0xB4E4F1FF :: uint32) = [0xB4E4F1FF, 0xB4E4F1FF]"
    by (simp add: numeral_2_eq_2)
  moreover have "sdrop (300 * 2) half_rng = half_rng"
    unfolding half_rng_def by (rule sdrop_sconst)
  ultimately show ?thesis by (simp only:)
qed

subsection \<open>One pixel of the mirror sphere\<close>

text \<open>
  The image of one pixel of \<open>mirror_world\<close>, with the generator that returns \<open>1 / 2\<close> for
  ever: every jitter is \<open>(0, 0)\<close>, every sample is the ray through the centre of the
  pixel, which meets the mirror and bounces back into the sky, so every sample is a
  quarter of the sky colour and the pixel is \<open>90, 114, 120\<close> with the alpha \<open>255\<close>.
\<close>

lemma mirror_channels:
  "\<lfloor>sqrt (1 / 8 :: real) * 255\<rfloor> = 90"
  "\<lfloor>sqrt (1 / 5 :: real) * 255\<rfloor> = 114"
  "\<lfloor>sqrt (9 / 40 :: real) * 255\<rfloor> = 120"
  by (rule floor_sqrt_scaled; simp)+

lemma color_bounced_any:
  assumes "0 < d"
  shows "color mirror_world bounced_ray d g = Some (Vec3 0.5 0.8 0.9, g)"
proof -
  have "\<forall>s\<in>set (spheres mirror_world). intersects bounced_ray s 0.001 PosInf < 0"
    using sphere_t_bounced [of ex_mirror] by (simp add: mirror_world_def sphere_t_def)
  from hit_none [OF this] assms show ?thesis by (simp add: color.simps)
qed

lemma color_mirror_any:
  assumes "1 < d"
  shows "color mirror_world ex_ray d g = Some (Vec3 0.125 0.2 0.225, g)"
proof -
  from assms have "0 < d - 1" and "\<not> d \<le> 0" by simp_all
  then show ?thesis
    by (subst color.simps)
      (simp add: hit_mirror spheres_mirror mirror_geometry Let_def scatter_mirror
        color_bounced_any material_ex smul_def times_vec3_def)
qed

lemma centre_ray:
  assumes "origin r = Vec3 0 0 0"
  shows "r\<lparr>direction := normalize (Vec3
           (fst (pixelToWorld 1 1 (to_float 1 / to_float 1) (to_float 0 + 0) (to_float 0 + 0)))
           (snd (pixelToWorld 1 1 (to_float 1 / to_float 1) (to_float 0 + 0) (to_float 0 + 0)))
           (- 1) - origin r)\<rparr> = ex_ray"
  using assms
  by (cases r) (simp add: pixelToWorld_def to_float_def normalize_def ex_ray_def vec_simps)

lemma half_offset: "randomVec2_range (- 0.5) 0.5 half_rng = ((0, 0), half_rng)"
  by (simp add: randomVec2_range_stream half_rng_def)

lemma sample_loop_mirror:
  "n + unat i = 150 \<Longrightarrow> origin r = Vec3 0 0 0 \<Longrightarrow>
   sample_loop mirror_world 1 1 0 0 i r acc half_rng =
     Some (acc + smul (real n) (Vec3 0.125 0.2 0.225), half_rng)"
proof (induction n arbitrary: i r acc)
  case 0
  then have "\<not> to_float i < sampleCount"
    by (simp add: to_float_def sampleCount_def)
  then show ?case
    by (subst sample_loop.simps) (simp add: vec_simps)
next
  case (Suc n)
  then have less: "unat i < 150" by simp
  then have i: "to_float i < sampleCount"
    unfolding to_float_def sampleCount_def by linarith
  from Suc.prems(1) sample_counter_step [OF less] have n: "n + unat (i + 1) = 150"
    by simp
  have o: "origin ex_ray = Vec3 0 0 0" by (simp add: ex_ray_def)
  have col: "color mirror_world ex_ray rayDepth g = Some (Vec3 0.125 0.2 0.225, g)" for g
    by (rule color_mirror_any) (simp add: rayDepth_def)
  have step: "sample_loop mirror_world 1 1 0 0 i r acc half_rng =
      sample_loop mirror_world 1 1 0 0 (i + 1) ex_ray (acc + Vec3 0.125 0.2 0.225) half_rng"
    by (subst sample_loop.simps)
      (simp only: i if_True half_offset Let_def prod.case fst_conv snd_conv
        centre_ray [OF Suc.prems(2)] col option.case)
  show ?case
    unfolding step Suc.IH [OF n o] by (simp add: vec_simps algebra_simps)
qed

lemma pixel_of_mirror:
  "pixel_of (Vec3 0 0 0 + smul (real (150 :: nat)) (Vec3 0.125 0.2 0.225)) = 0x5A7278FF"
  by (simp add: pixel_of_def vclamp_def vsqrt_def clamp_def sampleCount_def vec_simps
      pack_def to_uint32_def mirror_channels)

lemma render_mirror_pixel:
  "render mirror_world 1 1 half_rng = Inr ([0x5A7278FF], half_rng)"
proof -
  have cam: "position (camera mirror_world) = Vec3 0 0 0"
    by (simp add: mirror_world_def ex_camera_def)
  have sample: "sample_loop mirror_world 1 1 0 0 0
      \<lparr>origin = position (camera mirror_world), direction = Vec3 0 0 0\<rparr> (Vec3 0 0 0) half_rng
        = Some (Vec3 0 0 0 + smul (real (150 :: nat)) (Vec3 0.125 0.2 0.225), half_rng)"
    by (rule sample_loop_mirror) (simp_all add: cam)
  have row: "row_loop mirror_world 1 1 0 0 [0] half_rng = Inr ([0x5A7278FF], half_rng)"
    by (subst row_loop_step, simp only: sample pixel_of_mirror option.case prod.case,
        subst row_loop_step, simp)
  show ?thesis
    unfolding render_def
    by (subst image_loop.simps, simp add: row, subst image_loop.simps, simp)
qed

subsection \<open>What a run reads of the generator\<close>

text \<open>
  Computations that can be replayed: one that draws nothing, one that draws a fixed
  number of values and depends on these only, and two of them in sequence.
\<close>

lemma replaysI:
  assumes "\<And>a rest. m g = Some (a, rest) \<Longrightarrow>
      \<exists>n. rest = sdrop n g \<and> (\<forall>g'. stake n g' = stake n g \<longrightarrow> m g' = Some (a, sdrop n g'))"
  shows "replays m g"
  unfolding replays_def using assms by simp

lemma stake_add_eq:
  "stake (m + n) s = stake (m + n) t
     \<longleftrightarrow> stake m s = stake m t \<and> stake n (sdrop m s) = stake n (sdrop m t)"
proof -
  have s: "stake (m + n) s = stake m s @ stake n (sdrop m s)"
    by (rule stake_add [symmetric])
  have t: "stake (m + n) t = stake m t @ stake n (sdrop m t)"
    by (rule stake_add [symmetric])
  have "length (stake m s) = length (stake m t) \<or>
      length (stake n (sdrop m s)) = length (stake n (sdrop m t))"
    by simp
  then show ?thesis
    unfolding s t by (rule append_eq_append_conv)
qed

lemma replays_return: "replays (\<lambda>g. Some (a, g)) g"
proof (rule replaysI)
  fix b rest
  assume "Some (a, g) = Some (b, rest)"
  then have "rest = sdrop 0 g \<and> (\<forall>g'. stake 0 g' = stake 0 g \<longrightarrow> Some (a, g') = Some (b, sdrop 0 g'))"
    by simp
  then show "\<exists>n. rest = sdrop n g \<and> (\<forall>g'. stake n g' = stake n g \<longrightarrow> Some (a, g') = Some (b, sdrop n g'))"
    by (rule exI)
qed

lemma replaysD:
  assumes "replays m g" and "m g = Some (a, rest)"
  shows "\<exists>n. rest = sdrop n g
      \<and> (\<forall>g'. stake n g' = stake n g \<longrightarrow> m g' = Some (a, sdrop n g'))"
  using assms unfolding replays_def by simp

lemma replays_bind:
  assumes eq: "\<And>g. f g = (case m g of None \<Rightarrow> None | Some (a, g1) \<Rightarrow> k a g1)"
    and m: "replays m g"
    and k: "\<And>a g1. m g = Some (a, g1) \<Longrightarrow> replays (k a) g1"
  shows "replays f g"
proof (rule replaysI)
  fix b rest
  assume run: "f g = Some (b, rest)"
  then obtain a g1 where mg: "m g = Some (a, g1)" and kg: "k a g1 = Some (b, rest)"
    unfolding eq by (cases "m g") auto
  from replaysD [OF m mg] obtain n1 where g1: "g1 = sdrop n1 g"
    and m': "\<forall>g'. stake n1 g' = stake n1 g \<longrightarrow> m g' = Some (a, sdrop n1 g')"
    by (elim exE conjE)
  from replaysD [OF k [OF mg] kg] obtain n2 where rest: "rest = sdrop n2 g1"
    and k': "\<forall>g'. stake n2 g' = stake n2 g1 \<longrightarrow> k a g' = Some (b, sdrop n2 g')"
    by (elim exE conjE)
  have "rest = sdrop (n1 + n2) g"
    unfolding rest g1 by (rule sdrop_add)
  moreover have "f g' = Some (b, sdrop (n1 + n2) g')"
    if "stake (n1 + n2) g' = stake (n1 + n2) g" for g'
  proof -
    from that have "stake n1 g' = stake n1 g \<and> stake n2 (sdrop n1 g') = stake n2 (sdrop n1 g)"
      by (simp only: stake_add_eq)
    then have a: "stake n1 g' = stake n1 g"
      and b: "stake n2 (sdrop n1 g') = stake n2 g1"
      unfolding g1 by (rule conjunct1, rule conjunct2)
    from m' [THEN spec, THEN mp, OF a] have 1: "m g' = Some (a, sdrop n1 g')" .
    from k' [THEN spec, THEN mp, OF b]
    have 2: "k a (sdrop n1 g') = Some (b, sdrop n2 (sdrop n1 g'))" .
    have 3: "sdrop n2 (sdrop n1 g') = sdrop (n1 + n2) g'"
      by (rule sdrop_add)
    show ?thesis
      by (simp only: eq 1 2 3 option.case prod.case)
  qed
  ultimately have "rest = sdrop (n1 + n2) g
      \<and> (\<forall>g'. stake (n1 + n2) g' = stake (n1 + n2) g \<longrightarrow> f g' = Some (b, sdrop (n1 + n2) g'))"
    by (intro conjI allI impI)
  then show "\<exists>n. rest = sdrop n g
      \<and> (\<forall>g'. stake n g' = stake n g \<longrightarrow> f g' = Some (b, sdrop n g'))"
    by (rule exI)
qed

lemma replays_map:
  assumes eq: "\<And>g. f g = (case m g of None \<Rightarrow> None | Some (a, g1) \<Rightarrow> Some (h a, g1))"
    and m: "replays m g"
  shows "replays f g"
  using eq m by (rule replays_bind) (rule replays_return)

lemma replays_reads:
  assumes eq: "\<And>g. f g = Some (val g, sdrop n g)"
    and val: "\<And>g'. stake n g' = stake n g \<Longrightarrow> val g' = val g"
  shows "replays f g"
proof (rule replaysI)
  fix a rest
  assume "f g = Some (a, rest)"
  then have a: "val g = a" and rest: "rest = sdrop n g"
    unfolding eq by simp_all
  have "f g' = Some (a, sdrop n g')" if "stake n g' = stake n g" for g'
    using val [OF that] a by (simp only: eq)
  with rest have "rest = sdrop n g
      \<and> (\<forall>g'. stake n g' = stake n g \<longrightarrow> f g' = Some (a, sdrop n g'))"
    by (intro conjI allI impI)
  then show "\<exists>n. rest = sdrop n g
      \<and> (\<forall>g'. stake n g' = stake n g \<longrightarrow> f g' = Some (a, sdrop n g'))"
    by (rule exI)
qed

text \<open>
  The jitter reads two values. The rejection loop reads three values for each candidate,
  and whether it goes on depends on the candidate only; so a run of it that returns is
  replayed by every generator with the same triples up to the accepted one.
\<close>

lemma replays_randomVec2:
  "replays (\<lambda>g. Some (randomVec2_range mn mx g)) g"
proof (rule replays_reads [where n = 2
      and val = "\<lambda>g. (mn + (mx - mn) * shd g, mn + (mx - mn) * shd (stl g))"])
  show "Some (randomVec2_range mn mx g) =
      Some ((mn + (mx - mn) * shd g, mn + (mx - mn) * shd (stl g)), sdrop 2 g)" for g
    by (simp add: randomVec2_range_def randomFloat_range_def randomFloat_def numeral_2_eq_2)
next
  fix g'
  assume "stake 2 g' = stake 2 g"
  then show "(mn + (mx - mn) * shd g', mn + (mx - mn) * shd (stl g'))
      = (mn + (mx - mn) * shd g, mn + (mx - mn) * shd (stl g))"
    by (simp add: numeral_2_eq_2)
qed

lemma candidate_same:
  assumes "stake 3 g' = stake 3 g"
  shows "fst (randomVec3_range mn mx g') = fst (randomVec3_range mn mx g)"
  using assms by (simp add: randomVec3_range_stream numeral_3_eq_3)

lemma candidate_rest: "randomVec3_range mn mx g = (fst (randomVec3_range mn mx g), sdrop 3 g)"
  by (simp add: randomVec3_range_stream)

lemma unit_vector_step:
  "randomUnitVec3OnSphere g =
     (let dir = fst (randomVec3_range (- 1) 1 g)
      in if FLT_MIN < dot dir dir \<and> dot dir dir \<le> 1
         then Some (vdiv dir (sqrt (dot dir dir)), sdrop 3 g)
         else randomUnitVec3OnSphere (sdrop 3 g))"
  by (subst randomUnitVec3OnSphere.simps, subst candidate_rest) (simp add: Let_def)

lemma replay_of_unit_vector:
  assumes "randomUnitVec3OnSphere g = Some y"
  shows "replay_of g y"
proof (rule randomUnitVec3OnSphere.raw_induct [where P = replay_of, OF _ assms])
  fix sample :: "rng \<Rightarrow> (vec3 \<times> rng) option" and g :: rng and y :: "vec3 \<times> rng"
  assume IH: "\<And>x y. sample x = Some y \<Longrightarrow> replay_of x y"
    and eq: "(let (dir, g1) = randomVec3_range (- 1) 1 g; l = dot dir dir
              in if FLT_MIN < l \<and> l \<le> 1 then Some (vdiv dir (sqrt l), g1)
                 else sample g1) = Some y"
  let ?dir = "fst (randomVec3_range (- 1) 1 g)"
  show "replay_of g y"
  proof (cases "FLT_MIN < dot ?dir ?dir \<and> dot ?dir ?dir \<le> 1")
    case True
    from eq have y: "y = (vdiv ?dir (sqrt (dot ?dir ?dir)), sdrop 3 g)"
      by (subst (asm) candidate_rest) (simp add: True Let_def)
    have "randomUnitVec3OnSphere g' = Some (fst y, sdrop 3 g')"
      if "stake 3 g' = stake 3 g" for g'
      using True by (subst unit_vector_step) (simp add: candidate_same [OF that] Let_def y)
    then have "snd y = sdrop 3 g
        \<and> (\<forall>g'. stake 3 g' = stake 3 g
              \<longrightarrow> randomUnitVec3OnSphere g' = Some (fst y, sdrop 3 g'))"
      by (simp add: y)
    then show ?thesis unfolding replay_of_def by (rule exI)
  next
    case False
    from eq have "sample (sdrop 3 g) = Some y"
      by (subst (asm) candidate_rest) (simp add: False Let_def)
    from IH [OF this, unfolded replay_of_def] obtain n where rest: "snd y = sdrop n (sdrop 3 g)"
      and replay: "\<forall>g'. stake n g' = stake n (sdrop 3 g)
          \<longrightarrow> randomUnitVec3OnSphere g' = Some (fst y, sdrop n g')"
      by (elim exE conjE)
    have "randomUnitVec3OnSphere g' = Some (fst y, sdrop (3 + n) g')"
      if "stake (3 + n) g' = stake (3 + n) g" for g'
    proof -
      from that have "stake 3 g' = stake 3 g \<and> stake n (sdrop 3 g') = stake n (sdrop 3 g)"
        by (simp only: stake_add_eq)
      then have a: "stake 3 g' = stake 3 g"
        and b: "stake n (sdrop 3 g') = stake n (sdrop 3 g)"
        by (rule conjunct1, rule conjunct2)
      have "randomUnitVec3OnSphere g' = randomUnitVec3OnSphere (sdrop 3 g')"
        by (subst unit_vector_step) (simp only: candidate_same [OF a] Let_def False if_False)
      also from replay [THEN spec, THEN mp, OF b]
      have "\<dots> = Some (fst y, sdrop n (sdrop 3 g'))" .
      also have "sdrop n (sdrop 3 g') = sdrop (3 + n) g'" by (rule sdrop_add)
      finally show ?thesis .
    qed
    moreover have "snd y = sdrop (3 + n) g"
      unfolding rest by (rule sdrop_add)
    ultimately have "snd y = sdrop (3 + n) g
        \<and> (\<forall>g'. stake (3 + n) g' = stake (3 + n) g
              \<longrightarrow> randomUnitVec3OnSphere g' = Some (fst y, sdrop (3 + n) g'))"
      by (intro conjI allI impI)
    then show ?thesis unfolding replay_of_def by (rule exI)
  qed
qed

lemma replays_unit_vector: "replays randomUnitVec3OnSphere g"
proof (rule replaysI)
  fix v rest
  assume "randomUnitVec3OnSphere g = Some (v, rest)"
  from replay_of_unit_vector [OF this] show "\<exists>n. rest = sdrop n g
      \<and> (\<forall>g'. stake n g' = stake n g \<longrightarrow> randomUnitVec3OnSphere g' = Some (v, sdrop n g'))"
    unfolding replay_of_def by simp
qed

lemma replays_scatter: "replays (scatter r p n mat) g"
proof (cases "metallic mat \<noteq> 0")
  case True
  then have "scatter r p n mat = (\<lambda>g. Some (\<lparr>origin = p, direction = reflect (p - origin r) n\<rparr>, g))"
    by (simp add: scatter_def fun_eq_iff)
  then show ?thesis by (simp only: replays_return)
next
  case False
  show ?thesis
  proof (rule replays_map [where m = randomUnitVec3OnSphere
        and h = "\<lambda>dir. \<lparr>origin = p, direction = n + (if nearZero (n + dir) then n else dir)\<rparr>"])
    show "scatter r p n mat g =
        (case randomUnitVec3OnSphere g of None \<Rightarrow> None
         | Some (dir, g1) \<Rightarrow>
             Some (\<lparr>origin = p, direction = n + (if nearZero (n + dir) then n else dir)\<rparr>, g1))" for g
      using False by (simp add: scatter_def Let_def split: option.splits)
  next
    show "replays randomUnitVec3OnSphere g" by (rule replays_unit_vector)
  qed
qed

text \<open>
  The integrator, the sample loop, the row loop and the loop over the rows pass the
  generator from each step to the next and read it nowhere else.
\<close>

lemma replays_none: "replays (\<lambda>g. None) g"
  by (rule replaysI) simp

lemma replays_color: "replays (color w r depth) g"
proof (induction w r depth g rule: color.induct)
  case (1 w r depth g)
  show ?case
  proof (cases "depth \<le> 0")
    case True
    then have "color w r depth = (\<lambda>g. Some (Vec3 0 0 0, g))"
      by (simp add: color.simps fun_eq_iff)
    then show ?thesis by (simp only: replays_return)
  next
    case pos: False
    show ?thesis
    proof (cases "hit_sphere (hit w r)")
      case None
      with pos have "color w r depth = (\<lambda>g. Some (Vec3 0.5 0.8 0.9, g))"
        by (simp add: color.simps fun_eq_iff)
      then show ?thesis by (simp only: replays_return)
    next
      case (Some i)
      let ?sph = "spheres w ! i"
      let ?p = "ray_at r (hit_t (hit w r))"
      let ?n = "vdiv (?p - center ?sph) (radius ?sph)"
      let ?k = "\<lambda>scattered g1. case color w scattered (depth - 1) g1 of None \<Rightarrow> None
          | Some (c, g2) \<Rightarrow> Some (smul 0.25 (albedo (material ?sph)) * c, g2)"
      show ?thesis
      proof (rule replays_bind [where m = "scatter r ?p ?n (material ?sph)" and k = ?k])
        show "color w r depth g =
            (case scatter r ?p ?n (material ?sph) g of None \<Rightarrow> None
             | Some (scattered, g1) \<Rightarrow> ?k scattered g1)" for g
          using pos Some by (subst color.simps) (simp add: Let_def)
      next
        show "replays (scatter r ?p ?n (material ?sph)) g"
          by (rule replays_scatter)
      next
        fix scattered g1
        assume sc: "scatter r ?p ?n (material ?sph) g = Some (scattered, g1)"
        have "replays (color w scattered (depth - 1)) g1"
          using "1.IH" [OF pos refl Some refl refl refl refl sc refl] .
        then show "replays (?k scattered) g1"
          by (rule replays_map [rotated]) simp
      qed
    qed
  qed
qed

lemma replays_sample_loop: "replays (sample_loop wld w h x y i r acc) g"
proof (induction wld w h x y i r acc g rule: sample_loop.induct)
  case (1 wld w h x y i r acc g)
  show ?case
  proof (cases "to_float i < sampleCount")
    case False
    have "sample_loop wld w h x y i r acc g = Some (acc, g)" for g
      using False by (subst sample_loop.simps) simp
    then have "sample_loop wld w h x y i r acc = (\<lambda>g. Some (acc, g))"
      by (rule ext)
    then show ?thesis by (simp only: replays_return)
  next
    case True
    let ?r = "\<lambda>offset. r\<lparr>direction := normalize (Vec3
        (fst (pixelToWorld w h (to_float w / to_float h) (to_float x + fst offset) (to_float y + snd offset)))
        (snd (pixelToWorld w h (to_float w / to_float h) (to_float x + fst offset) (to_float y + snd offset)))
        (- 1) - origin r)\<rparr>"
    let ?k = "\<lambda>offset g1. case color wld (?r offset) rayDepth g1 of None \<Rightarrow> None
        | Some (c, g2) \<Rightarrow> sample_loop wld w h x y (i + 1) (?r offset) (acc + c) g2"
    show ?thesis
    proof (rule replays_bind [where m = "\<lambda>g. Some (randomVec2_range (- 0.5) 0.5 g)" and k = ?k])
      show "sample_loop wld w h x y i r acc g =
          (case Some (randomVec2_range (- 0.5) 0.5 g) of None \<Rightarrow> None
           | Some (offset, g1) \<Rightarrow> ?k offset g1)" for g
        using True by (subst sample_loop.simps) (simp add: Let_def split: prod.splits)
    next
      show "replays (\<lambda>g. Some (randomVec2_range (- 0.5) 0.5 g)) g"
        by (rule replays_randomVec2)
    next
      fix offset g1
      assume draw: "Some (randomVec2_range (- 0.5) 0.5 g) = Some (offset, g1)"
      then have draw': "(offset, g1) = randomVec2_range (- 0.5) 0.5 g" by simp
      show "replays (?k offset) g1"
      proof (rule replays_bind [where m = "color wld (?r offset) rayDepth"
            and k = "\<lambda>c. sample_loop wld w h x y (i + 1) (?r offset) (acc + c)"])
        show "?k offset g = (case color wld (?r offset) rayDepth g of None \<Rightarrow> None
            | Some (c, g2) \<Rightarrow> sample_loop wld w h x y (i + 1) (?r offset) (acc + c) g2)" for g
          by (rule refl)
      next
        show "replays (color wld (?r offset) rayDepth) g1"
          by (rule replays_color)
      next
        fix c g2
        assume col: "color wld (?r offset) rayDepth g1 = Some (c, g2)"
        show "replays (sample_loop wld w h x y (i + 1) (?r offset) (acc + c)) g2"
          using "1.IH" [OF True refl draw' refl refl col refl] .
      qed
    qed
  qed
qed

lemma replays_row_loop: "replays (\<lambda>g. finished (row_loop wld w h y x pixels g)) g"
proof (induction wld w h y x pixels g rule: row_loop.induct)
  case (1 wld w h y x pixels g)
  show ?case
  proof (cases "x < w")
    case False
    then have "(\<lambda>g. finished (row_loop wld w h y x pixels g)) = (\<lambda>g. Some (pixels, g))"
      by (subst row_loop_step) simp
    then show ?thesis by (simp only: replays_return)
  next
    case True
    let ?r = "\<lparr>origin = position (camera wld), direction = Vec3 0 0 0\<rparr>"
    let ?k = "\<lambda>pixelColor g1.
        if unat (y * w + x) < length pixels
        then finished (row_loop wld w h y (x + 1)
               (pixels[unat (y * w + x) := pixel_of pixelColor]) g1)
        else None"
    show ?thesis
    proof (rule replays_bind [where m = "sample_loop wld w h x y 0 ?r (Vec3 0 0 0)" and k = ?k])
      show "finished (row_loop wld w h y x pixels g) =
          (case sample_loop wld w h x y 0 ?r (Vec3 0 0 0) g of None \<Rightarrow> None
           | Some (pixelColor, g1) \<Rightarrow> ?k pixelColor g1)" for g
        using True by (subst row_loop_step) (simp split: option.splits)
    next
      show "replays (sample_loop wld w h x y 0 ?r (Vec3 0 0 0)) g"
        by (rule replays_sample_loop)
    next
      fix pixelColor g1
      assume s: "sample_loop wld w h x y 0 ?r (Vec3 0 0 0) g = Some (pixelColor, g1)"
      show "replays (?k pixelColor) g1"
      proof (cases "unat (y * w + x) < length pixels")
        case False
        then show ?thesis by (simp only: if_False replays_none)
      next
        case inside: True
        have "replays (\<lambda>g. finished (row_loop wld w h y (x + 1)
            (pixels[unat (y * w + x) := pack (vclamp (vsqrt (vdiv pixelColor sampleCount)) 0 1)]) g)) g1"
          using "1.IH" [OF True refl refl refl s refl refl inside] .
        with inside show ?thesis by (simp only: if_True pixel_of_def)
      qed
    qed
  qed
qed

lemma replays_image_loop: "replays (\<lambda>g. finished (image_loop wld w h y pixels g)) g"
proof (induction wld w h y pixels g rule: image_loop.induct)
  case (1 wld w h y pixels g)
  show ?case
  proof (cases "y < h")
    case False
    then have "(\<lambda>g. finished (image_loop wld w h y pixels g)) = (\<lambda>g. Some (pixels, g))"
      by (subst image_loop.simps) simp
    then show ?thesis by (simp only: replays_return)
  next
    case True
    show ?thesis
    proof (rule replays_bind [where m = "\<lambda>g. finished (row_loop wld w h y 0 pixels g)"
          and k = "\<lambda>pixels' g1. finished (image_loop wld w h (y + 1) pixels' g1)"])
      show "finished (image_loop wld w h y pixels g) =
          (case finished (row_loop wld w h y 0 pixels g) of None \<Rightarrow> None
           | Some (pixels', g1) \<Rightarrow> finished (image_loop wld w h (y + 1) pixels' g1))" for g
        using True by (subst image_loop.simps) (simp split: sum.splits)
    next
      show "replays (\<lambda>g. finished (row_loop wld w h y 0 pixels g)) g"
        by (rule replays_row_loop)
    next
      fix pixels' g1
      assume "finished (row_loop wld w h y 0 pixels g) = Some (pixels', g1)"
      then have row: "row_loop wld w h y 0 pixels g = Inr (pixels', g1)"
        by (simp only: finished_Some)
      show "replays (\<lambda>g1. finished (image_loop wld w h (y + 1) pixels' g1)) g1"
        using "1.IH" [OF True row refl] .
    qed
  qed
qed

subsection \<open>The buffer\<close>

text \<open>The loops write into the buffer and never change its size.\<close>

lemma row_loop_length:
  "row_loop wld w h y x pixels g = Inr (pixels', g') \<Longrightarrow> length pixels' = length pixels"
proof (induction wld w h y x pixels g rule: row_loop.induct)
  case (1 wld w h y x pixels g)
  show ?case
  proof (cases "x < w")
    case True
    let ?r = "\<lparr>origin = position (camera wld), direction = Vec3 0 0 0\<rparr>"
    from "1.prems" True obtain pc g1 where
      s: "sample_loop wld w h x y 0 ?r (Vec3 0 0 0) g = Some (pc, g1)" and
      inside: "unat (y * w + x) < length pixels" and
      rest: "row_loop wld w h y (x + 1)
          (pixels[unat (y * w + x) := pack (vclamp (vsqrt (vdiv pc sampleCount)) 0 1)]) g1
            = Inr (pixels', g')"
      by (subst (asm) row_loop_step) (auto simp: pixel_of_def split: option.splits if_splits)
    from "1.IH" [OF True refl refl refl s refl refl inside rest] show ?thesis by simp
  next
    case False
    with "1.prems" show ?thesis by (subst (asm) row_loop_step) simp
  qed
qed

lemma image_loop_length:
  "image_loop wld w h y pixels g = Inr (pixels', g') \<Longrightarrow> length pixels' = length pixels"
proof (induction wld w h y pixels g rule: image_loop.induct)
  case (1 wld w h y pixels g)
  show ?case
  proof (cases "y < h")
    case True
    from "1.prems" True obtain px g1 where
      row: "row_loop wld w h y 0 pixels g = Inr (px, g1)" and
      rest: "image_loop wld w h (y + 1) px g1 = Inr (pixels', g')"
      by (subst (asm) image_loop.simps) (auto split: sum.splits)
    from "1.IH" [OF True row refl rest] row_loop_length [OF row] show ?thesis by simp
  next
    case False
    with "1.prems" show ?thesis by (subst (asm) image_loop.simps) simp
  qed
qed

lemma render_buffer_size:
  "render wld w h g = Inr (pixels, rest) \<Longrightarrow> length pixels = unat (w * h)"
  unfolding render_def by (drule image_loop_length) simp

text \<open>
  Claim C9. The render over a scene and dimensions depends on its generator through the
  values it draws and through nothing else, so a run is reproduced by every run that is
  given the same values: when the render started in generator state \<open>g\<close> returns a
  buffer, this buffer has the \<open>w * h\<close> pixels of the product in \<^verbatim>\<open>uint32_t\<close>, the run has made
  some number \<open>n\<close> of draws and left the generator \<open>n\<close> draws further, and every run over
  the same scene and dimensions whose generator yields the same first \<open>n\<close> values also
  returns, with the same pixel buffer word for word, and leaves its generator \<open>n\<close> draws
  further. Two runs with the same seed are two runs whose generators yield the same
  values throughout, so they return bit-identical buffers.
\<close>

theorem render_reproducible:
  assumes "render wld w h g = Inr (pixels, rest)"
  shows "length pixels = unat (w * h)
         \<and> (\<exists>n. rest = sdrop n g
               \<and> (\<forall>g'. stake n g' = stake n g
                     \<longrightarrow> render wld w h g' = Inr (pixels, sdrop n g')))"
proof -
  have "replays (\<lambda>g. finished (render wld w h g)) g"
    unfolding render_def by (rule replays_image_loop)
  moreover from assms have "finished (render wld w h g) = Some (pixels, rest)"
    by simp
  ultimately have "\<exists>n. rest = sdrop n g
      \<and> (\<forall>g'. stake n g' = stake n g
            \<longrightarrow> finished (render wld w h g') = Some (pixels, sdrop n g'))"
    by (rule replaysD)
  then have "\<exists>n. rest = sdrop n g
      \<and> (\<forall>g'. stake n g' = stake n g \<longrightarrow> render wld w h g' = Inr (pixels, sdrop n g'))"
    by (simp only: finished_Some)
  with render_buffer_size [OF assms] show ?thesis by (rule conjI)
qed

text \<open>
  The run of one pixel of the mirror sphere returns the buffer \<open>[0x5A7278FF]\<close>, and so
  does every run whose generator agrees with it on the values it draws.
\<close>

theorem render_reproducible_witness:
  "render mirror_world 1 1 half_rng = Inr ([0x5A7278FF], half_rng)
   \<and> length [0x5A7278FF :: uint32] = unat (1 * 1 :: uint32)
   \<and> (\<exists>n. half_rng = sdrop n half_rng
         \<and> (\<forall>g'. stake n g' = stake n half_rng
               \<longrightarrow> render mirror_world 1 1 g' = Inr ([0x5A7278FF], sdrop n g')))"
  using render_reproducible [OF render_mirror_pixel] render_mirror_pixel by simp

section \<open>Further properties\<close>

text \<open>
  The rejection loop returns as soon as one of the triples of draws is a candidate whose
  squared length lies in \<open>(FLT_MIN, 1]\<close>.
\<close>

theorem unit_vector_terminates:
  assumes "randomVec3_range (- 1) 1 (sdrop (3 * k) g) = (dir, g')"
    and "FLT_MIN < dot dir dir" and "dot dir dir \<le> 1"
  shows "\<exists>v g''. randomUnitVec3OnSphere g = Some (v, g'')"
  using unit_vector_returns [OF assms] by auto

theorem unit_vector_terminates_witness:
  "randomVec3_range (- 1) 1 (sdrop (3 * 0) ex_rng) = (Vec3 0 0 (- 1), sconst 0)
   \<and> FLT_MIN < dot (Vec3 0 0 (- 1)) (Vec3 0 0 (- 1))
   \<and> dot (Vec3 0 0 (- 1)) (Vec3 0 0 (- 1)) \<le> 1
   \<and> (\<exists>v g''. randomUnitVec3OnSphere ex_rng = Some (v, g''))"
proof -
  have a: "randomVec3_range (- 1) 1 (sdrop (3 * 0) ex_rng) = (Vec3 0 0 (- 1), sconst 0)"
    by (simp add: randomVec3_range_stream ex_rng_def numeral_3_eq_3)
  have b: "FLT_MIN < dot (Vec3 0 0 (- 1)) (Vec3 0 0 (- 1))"
    by (simp add: FLT_MIN_def dot_def)
  have c: "dot (Vec3 0 0 (- 1)) (Vec3 0 0 (- 1)) \<le> 1"
    by (simp add: dot_def)
  from unit_vector_terminates [OF a b c] a b c show ?thesis by blast
qed

text \<open>
  The sphere that the closest-hit query returns is one of the spheres of the world: its
  index is below their number.
\<close>

theorem hit_in_range:
  "hit_sphere (hit w r) = Some i \<Longrightarrow> i < length (spheres w)"
  by (rule hit_index_valid)

theorem hit_in_range_witness:
  "hit_sphere (hit tie_world ex_ray) = Some 1 \<and> 1 < length (spheres tie_world)"
proof -
  have a: "hit_sphere (hit tie_world ex_ray) = Some 1" by (simp add: hit_tie)
  from hit_in_range [OF a] a show ?thesis by simp
qed

lemma nearZero_zero: "nearZero (Vec3 0 0 0)"
  by (simp add: nearZero_def FLT_EPSILON_def)

text \<open>
  For a material that is not metallic and a normal that is not the zero vector, the
  scattered ray starts at \<open>p\<close> and its direction is not the zero vector.
\<close>

theorem scatter_diffuse_nonzero:
  assumes "metallic mat = 0" and "n \<noteq> Vec3 0 0 0"
    and "scatter r p n mat g = Some (scattered, g')"
  shows "origin scattered = p \<and> direction scattered \<noteq> Vec3 0 0 0"
proof -
  from assms(1,3) obtain dir where
    sc: "scattered = \<lparr>origin = p, direction = n + (if nearZero (n + dir) then n else dir)\<rparr>"
    by (auto simp: scatter_def Let_def split: option.splits)
  show ?thesis
  proof (cases "nearZero (n + dir)")
    case True
    with sc assms(2) show ?thesis by (simp add: double_nonzero)
  next
    case False
    then have "n + dir \<noteq> Vec3 0 0 0" using nearZero_zero by auto
    with sc False show ?thesis by simp
  qed
qed

theorem scatter_diffuse_nonzero_witness:
  "metallic ex_matte = 0 \<and> Vec3 0 0 1 \<noteq> Vec3 0 0 0
   \<and> scatter ex_ray (Vec3 0 0 (- 1)) (Vec3 0 0 1) ex_matte ex_rng
       = Some (\<lparr>origin = Vec3 0 0 (- 1), direction = Vec3 0 0 2\<rparr>, sconst 0)
   \<and> Vec3 0 0 2 \<noteq> Vec3 0 0 0"
proof -
  have a: "metallic ex_matte = 0" by (simp add: ex_matte_def)
  have b: "Vec3 0 0 1 \<noteq> Vec3 0 0 0" by simp
  have c: "scatter ex_ray (Vec3 0 0 (- 1)) (Vec3 0 0 1) ex_matte ex_rng
       = Some (\<lparr>origin = Vec3 0 0 (- 1), direction = Vec3 0 0 2\<rparr>, sconst 0)"
    using unit_vector_ex nearZero_ex by (simp add: scatter_def ex_matte_def plus_vec3_def)
  from scatter_diffuse_nonzero [OF a b c] a b c show ?thesis by simp
qed

lemma color_metallic_aux:
  "(\<forall>s\<in>set (spheres w). metallic (material s) \<noteq> 0) \<Longrightarrow> \<exists>c. color w r depth g = Some (c, g)"
proof (induction w r depth g rule: color.induct)
  case (1 w r depth g)
  show ?case
  proof (cases "depth \<le> 0")
    case True
    then show ?thesis by (simp add: color.simps)
  next
    case pos: False
    show ?thesis
    proof (cases "hit_sphere (hit w r)")
      case None
      with pos show ?thesis by (simp add: color.simps)
    next
      case (Some i)
      let ?sph = "spheres w ! i"
      let ?p = "ray_at r (hit_t (hit w r))"
      let ?n = "vdiv (?p - center ?sph) (radius ?sph)"
      let ?sc = "\<lparr>origin = ?p, direction = reflect (?p - origin r) ?n\<rparr>"
      have "?sph \<in> set (spheres w)"
        using hit_index_valid [OF Some] by (rule nth_mem)
      with "1.prems" have m: "metallic (material ?sph) \<noteq> 0" by blast
      then have sc: "scatter r ?p ?n (material ?sph) g = Some (?sc, g)"
        by (simp add: scatter_def)
      from "1.IH" [OF pos refl Some refl refl refl refl sc refl "1.prems"]
      obtain c where "color w ?sc (depth - 1) g = Some (c, g)" ..
      with pos Some sc show ?thesis
        by (subst color.simps) (simp add: Let_def)
    qed
  qed
qed

text \<open>
  In a world whose spheres are all metallic the integrator returns for every ray, depth
  and generator state, and it leaves the generator as it was.
\<close>

theorem color_metallic_world:
  assumes "\<forall>s\<in>set (spheres w). metallic (material s) \<noteq> 0"
  shows "\<exists>c. color w r depth g = Some (c, g)"
  using assms by (rule color_metallic_aux)

theorem color_metallic_world_witness:
  "spheres mirror_world = [ex_sphere ex_mirror] \<and> metallic (material (ex_sphere ex_mirror)) \<noteq> 0
   \<and> (\<exists>c. color mirror_world ex_ray 2 half_rng = Some (c, half_rng))"
proof -
  have a: "\<forall>s\<in>set (spheres mirror_world). metallic (material s) \<noteq> 0"
    by (simp add: mirror_world_def ex_sphere_def ex_mirror_def)
  from color_metallic_world [OF a, of ex_ray 2 half_rng] show ?thesis
    by (simp add: mirror_world_def ex_sphere_def ex_mirror_def)
qed

text \<open>
  A render that finishes returns a buffer of as many pixels as the product \<open>w * h\<close> in
  \<^verbatim>\<open>uint32_t\<close>.
\<close>

theorem render_length:
  "render wld w h g = Inr (pixels, g') \<Longrightarrow> length pixels = unat (w * h)"
  by (rule render_buffer_size)

theorem render_length_witness:
  "render empty_world 2 1 half_rng = Inr ([0xB4E4F1FF, 0xB4E4F1FF], half_rng)
   \<and> length [0xB4E4F1FF, 0xB4E4F1FF :: uint32] = unat (2 * 1 :: uint32)"
  using render_length [OF render_two_pixels] render_two_pixels by simp

text \<open>
  Rendering a world without spheres, for an image of fewer than \<open>2 ^ 32\<close> pixels,
  finishes; every pixel of the image is the pixel of the sky colour \<open>0xB4E4F1FF\<close>, and
  \<open>300\<close> numbers are drawn for each pixel.
\<close>

theorem render_no_spheres:
  assumes "spheres wld = []" and "unat w * unat h < 2 ^ 32"
  shows "render wld w h g =
    Inr (replicate (unat w * unat h) 0xB4E4F1FF, sdrop (300 * (unat w * unat h)) g)"
  using assms by (rule render_no_spheres_run)

theorem render_no_spheres_witness:
  "spheres empty_world = [] \<and> unat (2 :: uint32) * unat (1 :: uint32) < 2 ^ 32
   \<and> render empty_world 2 1 half_rng = Inr ([0xB4E4F1FF, 0xB4E4F1FF], half_rng)"
proof -
  have e: "spheres empty_world = []"
    by (simp add: empty_world_def)
  have small: "unat (2 :: uint32) * unat (1 :: uint32) < 2 ^ 32"
    by simp
  from render_no_spheres [OF e small, of half_rng] have "\<exists>pixels rest.
      render empty_world 2 1 half_rng = Inr (pixels, rest)"
    by (intro exI)
  with e small render_two_pixels show ?thesis
    by (intro conjI)
qed

text \<open>
  Where the product \<open>w * h\<close> wraps, the buffer is shorter than the image and the run ends
  at the first write outside it: for \<open>w = h = 2 ^ 16\<close> the buffer is empty.
\<close>

theorem render_product_wraps:
  "render empty_world 0x10000 0x10000 g = Inl OutOfBounds"
proof -
  have e: "spheres empty_world = []"
    by (simp add: empty_world_def)
  have "(0x10000 :: uint32) * 0x10000 = 0"
    by simp
  then have "render empty_world 0x10000 0x10000 g = image_loop empty_world 0x10000 0x10000 0 [] g"
    by (simp add: render_def)
  also have "\<dots> = Inl OutOfBounds"
    by (subst image_loop.simps, subst pixel_no_spheres [OF e]) simp
  finally show ?thesis .
qed

text \<open>
  With a fair generator no rejection loop runs for ever, so the integrator and the loops
  return, each leaving the generator some number of draws further; and in an image of
  fewer than \<open>2 ^ 32\<close> pixels every index lies inside the buffer.
\<close>

lemma fair_sdrop:
  assumes "fair g"
  shows "fair (sdrop n g)"
  unfolding fair_def
proof
  fix m
  from assms obtain k where "accepts (sdrop ((n + m) + 3 * k) g)"
    unfolding fair_def by blast
  moreover have "sdrop (m + 3 * k) (sdrop n g) = sdrop (n + (m + 3 * k)) g"
    by (rule sdrop_add)
  ultimately have "accepts (sdrop (m + 3 * k) (sdrop n g))"
    by (simp add: add.assoc)
  then show "\<exists>k. accepts (sdrop (m + 3 * k) (sdrop n g))" ..
qed

lemma returns_unit_vector:
  assumes "fair g"
  shows "\<exists>v n. randomUnitVec3OnSphere g = Some (v, sdrop n g)"
proof -
  from assms obtain k where "accepts (sdrop (0 + 3 * k) g)"
    unfolding fair_def by blast
  then have a: "accepts (sdrop (3 * k) g)" by simp
  obtain dir g' where c: "randomVec3_range (- 1) 1 (sdrop (3 * k) g) = (dir, g')"
    by (cases "randomVec3_range (- 1) 1 (sdrop (3 * k) g)")
  with a have "FLT_MIN < dot dir dir" and "dot dir dir \<le> 1"
    by (simp_all add: accepts_def Let_def)
  from unit_vector_returns [OF c this] obtain v rest where
    r: "randomUnitVec3OnSphere g = Some (v, rest)"
    by auto
  from replaysD [OF replays_unit_vector r] obtain n where "rest = sdrop n g"
    by (elim exE conjE)
  with r show ?thesis by blast
qed

lemma returns_scatter:
  assumes "fair g"
  shows "\<exists>s k. scatter r p n mat g = Some (s, sdrop k g)"
proof (cases "metallic mat \<noteq> 0")
  case True
  then have "scatter r p n mat g = Some (\<lparr>origin = p, direction = reflect (p - origin r) n\<rparr>, sdrop 0 g)"
    by (simp add: scatter_def)
  then show ?thesis by blast
next
  case False
  from returns_unit_vector [OF assms] obtain v k where
    "randomUnitVec3OnSphere g = Some (v, sdrop k g)" by blast
  with False have "scatter r p n mat g =
      Some (\<lparr>origin = p, direction = n + (if nearZero (n + v) then n else v)\<rparr>, sdrop k g)"
    by (simp add: scatter_def Let_def)
  then show ?thesis by blast
qed

lemma returns_color:
  "fair g \<Longrightarrow> \<exists>c n. color w r depth g = Some (c, sdrop n g)"
proof (induction w r depth g rule: color.induct)
  case (1 w r depth g)
  have here: "g = sdrop 0 g" by simp
  show ?case
  proof (cases "depth \<le> 0")
    case True
    then have "color w r depth g = Some (Vec3 0 0 0, sdrop 0 g)"
      by (simp add: color.simps)
    then show ?thesis by blast
  next
    case pos: False
    show ?thesis
    proof (cases "hit_sphere (hit w r)")
      case None
      with pos have "color w r depth g = Some (Vec3 0.5 0.8 0.9, sdrop 0 g)"
        by (simp add: color.simps)
      then show ?thesis by blast
    next
      case (Some i)
      let ?sph = "spheres w ! i"
      let ?p = "ray_at r (hit_t (hit w r))"
      let ?n = "vdiv (?p - center ?sph) (radius ?sph)"
      from returns_scatter [OF "1.prems"] obtain scattered k where
        sc: "scatter r ?p ?n (material ?sph) g = Some (scattered, sdrop k g)"
        by blast
      from "1.IH" [OF pos refl Some refl refl refl refl sc refl fair_sdrop [OF "1.prems"]]
      obtain c n where col: "color w scattered (depth - 1) (sdrop k g) = Some (c, sdrop n (sdrop k g))"
        by blast
      have "sdrop n (sdrop k g) = sdrop (k + n) g" by (rule sdrop_add)
      with pos Some sc col have "color w r depth g =
          Some (smul 0.25 (albedo (material ?sph)) * c, sdrop (k + n) g)"
        by (subst color.simps) (simp add: Let_def)
      then show ?thesis by blast
    qed
  qed
qed

lemma returns_sample_loop:
  "fair g \<Longrightarrow> \<exists>c n. sample_loop wld w h x y i r acc g = Some (c, sdrop n g)"
proof (induction wld w h x y i r acc g rule: sample_loop.induct)
  case (1 wld w h x y i r acc g)
  show ?case
  proof (cases "to_float i < sampleCount")
    case False
    then have "sample_loop wld w h x y i r acc g = Some (acc, sdrop 0 g)"
      by (subst sample_loop.simps) simp
    then show ?thesis by blast
  next
    case True
    obtain offset g1 where draw: "(offset, g1) = randomVec2_range (- 0.5) 0.5 g"
      by (cases "randomVec2_range (- 0.5) 0.5 g") simp
    then have g1: "g1 = sdrop 2 g"
      by (simp add: randomVec2_range_stream numeral_2_eq_2)
    let ?r = "r\<lparr>direction := normalize (Vec3
        (fst (pixelToWorld w h (to_float w / to_float h) (to_float x + fst offset) (to_float y + snd offset)))
        (snd (pixelToWorld w h (to_float w / to_float h) (to_float x + fst offset) (to_float y + snd offset)))
        (- 1) - origin r)\<rparr>"
    have f1: "fair g1" unfolding g1 using "1.prems" by (rule fair_sdrop)
    from returns_color [OF f1] obtain c k where
      col: "color wld ?r rayDepth g1 = Some (c, sdrop k g1)"
      by blast
    from "1.IH" [OF True refl draw refl refl col refl fair_sdrop [OF f1]]
    obtain c' n where rest: "sample_loop wld w h x y (i + 1) ?r (acc + c) (sdrop k g1)
        = Some (c', sdrop n (sdrop k g1))"
      by blast
    have "sdrop n (sdrop k g1) = sdrop (2 + k + n) g"
      unfolding g1 by (simp add: add.assoc)
    with rest have rest': "sample_loop wld w h x y (i + 1) ?r (acc + c) (sdrop k g1)
        = Some (c', sdrop (2 + k + n) g)"
      by simp
    have "sample_loop wld w h x y i r acc g = Some (c', sdrop (2 + k + n) g)"
      using True
      by (subst sample_loop.simps)
        (simp only: if_True draw [symmetric] Let_def prod.case col option.case rest')
    then show ?thesis by blast
  qed
qed

lemma returns_row_loop:
  "fair g \<Longrightarrow> unat w * unat h < 2 ^ 32 \<Longrightarrow> y < h \<Longrightarrow> length pixels = unat w * unat h \<Longrightarrow>
   \<exists>pixels' n. row_loop wld w h y x pixels g = Inr (pixels', sdrop n g)
      \<and> length pixels' = length pixels"
proof (induction wld w h y x pixels g rule: row_loop.induct)
  case (1 wld w h y x pixels g)
  show ?case
  proof (cases "x < w")
    case False
    then have "row_loop wld w h y x pixels g = Inr (pixels, sdrop 0 g)"
      by (subst row_loop_step) simp
    then show ?thesis by blast
  next
    case True
    let ?r = "\<lparr>origin = position (camera wld), direction = Vec3 0 0 0\<rparr>"
    from returns_sample_loop [OF "1.prems"(1)] obtain pc k where
      s: "sample_loop wld w h x y 0 ?r (Vec3 0 0 0) g = Some (pc, sdrop k g)"
      by blast
    from idx_no_wrap [OF "1.prems"(2) True "1.prems"(3)] "1.prems"(4)
    have inside: "unat (y * w + x) < length pixels"
      by simp
    let ?px = "pixels[unat (y * w + x) := pack (vclamp (vsqrt (vdiv pc sampleCount)) 0 1)]"
    have len: "length ?px = unat w * unat h"
      using "1.prems"(4) by simp
    from "1.IH" [OF True refl refl refl s refl refl inside fair_sdrop [OF "1.prems"(1)]
        "1.prems"(2,3) len]
    obtain pixels' n where rest: "row_loop wld w h y (x + 1) ?px (sdrop k g)
        = Inr (pixels', sdrop n (sdrop k g))" and len': "length pixels' = length ?px"
      by blast
    have "sdrop n (sdrop k g) = sdrop (k + n) g" by (rule sdrop_add)
    with rest have "row_loop wld w h y (x + 1) ?px (sdrop k g) = Inr (pixels', sdrop (k + n) g)"
      by simp
    with True s inside have "row_loop wld w h y x pixels g = Inr (pixels', sdrop (k + n) g)"
      by (subst row_loop_step) (simp add: pixel_of_def)
    with len' show ?thesis by auto
  qed
qed

lemma returns_image_loop:
  "fair g \<Longrightarrow> unat w * unat h < 2 ^ 32 \<Longrightarrow> length pixels = unat w * unat h \<Longrightarrow>
   \<exists>pixels' n. image_loop wld w h y pixels g = Inr (pixels', sdrop n g)
      \<and> length pixels' = length pixels"
proof (induction wld w h y pixels g rule: image_loop.induct)
  case (1 wld w h y pixels g)
  show ?case
  proof (cases "y < h")
    case False
    then have "image_loop wld w h y pixels g = Inr (pixels, sdrop 0 g)"
      by (subst image_loop.simps) simp
    then show ?thesis by blast
  next
    case True
    from returns_row_loop [OF "1.prems"(1,2) True "1.prems"(3)] obtain px k where
      row: "row_loop wld w h y 0 pixels g = Inr (px, sdrop k g)" and len: "length px = length pixels"
      by blast
    from len "1.prems"(3) have len': "length px = unat w * unat h" by simp
    from "1.IH" [OF True row refl fair_sdrop [OF "1.prems"(1)] "1.prems"(2) len']
    obtain pixels' n where rest: "image_loop wld w h (y + 1) px (sdrop k g)
        = Inr (pixels', sdrop n (sdrop k g))" and l: "length pixels' = length px"
      by blast
    have "sdrop n (sdrop k g) = sdrop (k + n) g" by (rule sdrop_add)
    with rest have "image_loop wld w h (y + 1) px (sdrop k g) = Inr (pixels', sdrop (k + n) g)"
      by simp
    with True row have "image_loop wld w h y pixels g = Inr (pixels', sdrop (k + n) g)"
      by (subst image_loop.simps) simp
    with l len show ?thesis by auto
  qed
qed

lemma render_returns:
  assumes "fair g" and "unat w * unat h < 2 ^ 32"
  shows "\<exists>pixels n. render wld w h g = Inr (pixels, sdrop n g)"
proof -
  from assms(2) have "unat (w * h) = unat w * unat h"
    by (simp add: unat_mult_lem [THEN iffD1])
  then have "length (replicate (unat (w * h)) (0 :: uint32)) = unat w * unat h"
    by simp
  from returns_image_loop [OF assms this] show ?thesis
    unfolding render_def by blast
qed

lemma accepts_steady: "accepts steady_rng"
  by (simp add: accepts_def steady_rng_def randomVec3_range_stream FLT_MIN_def dot_def Let_def
      numeral_3_eq_3)

lemma fair_steady: "fair steady_rng"
proof -
  have "sdrop n steady_rng = steady_rng" for n
    unfolding steady_rng_def by (rule sdrop_sconst)
  with accepts_steady show ?thesis
    by (simp add: fair_def)
qed

text \<open>
  The render of any scene returns a buffer when its generator is fair and the image has
  fewer than \<open>2 ^ 32\<close> pixels.
\<close>

theorem render_finishes:
  assumes "fair g" and "unat w * unat h < 2 ^ 32"
  shows "\<exists>pixels n. render wld w h g = Inr (pixels, sdrop n g)"
  using assms by (rule render_returns)

theorem render_finishes_witness:
  "fair steady_rng \<and> unat (2 :: uint32) * unat (1 :: uint32) < 2 ^ 32
   \<and> (\<exists>pixels n. render tie_world 2 1 steady_rng = Inr (pixels, sdrop n steady_rng))"
proof -
  have small: "unat (2 :: uint32) * unat (1 :: uint32) < 2 ^ 32"
    by simp
  from render_finishes [OF fair_steady small] fair_steady small show ?thesis
    by (intro conjI)
qed

end
